theory Spec2Isabelle
  imports Complex_Main "HOL-Library.Sublist"
begin

section \<open>Python values\<close>

text \<open>
  The script \<^verbatim>\<open>magnit_parser.py\<close> works on decoded JSON documents and on Python strings.
  A Python string is a sequence of Unicode code points, so it is modelled as a list of
  natural numbers (the product names and city names of the script are Cyrillic, which a
  byte string would spread over two bytes each). \<open>u\<close> reads an ASCII literal as such a
  string.

  A decoded JSON document is a value of \<open>json\<close>. A Python \<^verbatim>\<open>dict\<close> keeps its keys in
  insertion order and has every key once; it is an association list, looked up with
  \<open>map_of\<close>. A finite Python float is the rational number it denotes (the values NaN and
  the infinities are not represented).
\<close>

type_synonym ustring = "nat list"

definition u :: "string \<Rightarrow> ustring" where
  "u s = map of_char s"

datatype json =
    JNull
  | JBool bool
  | JInt int
  | JFloat rat
  | JStr ustring
  | JList "json list"
  | JDict "(ustring \<times> json) list"

text \<open>
  Every \<^verbatim>\<open>raise\<close> of the script and every exception of the interpreter that the modelled
  code can meet is a value. The three \<^verbatim>\<open>RuntimeError\<close>s of the script are told apart by
  their message. \<open>RequestFailed\<close> stands for whatever \<^verbatim>\<open>session.post\<close>,
  \<^verbatim>\<open>session.get\<close>, \<^verbatim>\<open>raise_for_status\<close> or \<^verbatim>\<open>r.json()\<close> raise. \<open>Unmodelled\<close> marks
  the few library conversions whose result this development does not compute (see
  \<open>py_str\<close> and \<open>py_int\<close>).
\<close>

datatype runtime_msg = NoFiasId | NoCityId | NoCoffeeCategory

datatype error =
    AttributeError
  | TypeError
  | KeyError
  | ValueError
  | OverflowError
  | UnicodeEncodeError
  | RequestFailed
  | RuntimeError runtime_msg
  | Unmodelled

text \<open>Truth value testing (\<^verbatim>\<open>bool(x)\<close>, \<^verbatim>\<open>if x\<close>, \<^verbatim>\<open>x or y\<close>).\<close>

fun truthy :: "json \<Rightarrow> bool" where
  "truthy JNull = False"
| "truthy (JBool b) = b"
| "truthy (JInt n) = (n \<noteq> 0)"
| "truthy (JFloat r) = (r \<noteq> 0)"
| "truthy (JStr s) = (s \<noteq> [])"
| "truthy (JList xs) = (xs \<noteq> [])"
| "truthy (JDict d) = (d \<noteq> [])"

definition py_or :: "json \<Rightarrow> json \<Rightarrow> json" where
  "py_or a b = (if truthy a then a else b)"

text \<open>\<^verbatim>\<open>d.get(k, default)\<close>; \<^verbatim>\<open>d.get(k)\<close> is \<open>dict_get d k JNull\<close>.\<close>

definition dict_get :: "(ustring \<times> json) list \<Rightarrow> ustring \<Rightarrow> json \<Rightarrow> json" where
  "dict_get d k dflt = (case map_of d k of None \<Rightarrow> dflt | Some v \<Rightarrow> v)"

fun is_dict :: "json \<Rightarrow> bool" where
  "is_dict (JDict d) = True"
| "is_dict v = False"

text \<open>
  \<^verbatim>\<open>isinstance(x, int)\<close>: Python's \<^verbatim>\<open>bool\<close> is a subclass of \<^verbatim>\<open>int\<close>, with
  \<^verbatim>\<open>True == 1\<close> and \<^verbatim>\<open>False == 0\<close>.
\<close>

fun isinstance_int :: "json \<Rightarrow> bool" where
  "isinstance_int (JInt n) = True"
| "isinstance_int (JBool b) = True"
| "isinstance_int v = False"

fun int_value :: "json \<Rightarrow> int" where
  "int_value (JInt n) = n"
| "int_value (JBool b) = (if b then 1 else 0)"
| "int_value v = 0"

text \<open>
  What a \<^verbatim>\<open>for\<close> loop iterates over: the elements of a list, the one-character strings
  of a string, the keys of a dict; anything else is not iterable.
\<close>

fun py_iter :: "json \<Rightarrow> error + json list" where
  "py_iter (JList xs) = Inr xs"
| "py_iter (JStr s) = Inr (map (\<lambda>c. JStr [c]) s)"
| "py_iter (JDict d) = Inr (map (\<lambda>kv. JStr (fst kv)) d)"
| "py_iter v = Inl TypeError"

section \<open>The paginated product fetcher\<close>

text \<open>
  The upstream service is the list of its replies, in the order the requests are made:
  a reply either makes the HTTP layer raise or carries a decoded JSON body. The list
  stands for every server, since the script is sequential. When the list is used up the
  run has not ended: its outcome is \<open>None\<close>.
\<close>

datatype reply = Raises error | Body json

record request =
  req_category :: int
  req_city :: ustring
  req_offset :: int
  req_limit :: int
  req_token :: json

text \<open>
  \<^verbatim>\<open>goods_search_page\<close>, from the reply to its request on:
  \<^verbatim>\<open>return data.get("items", []) or [], data.get("token", "") or ""\<close>.
  A body that is not a dict has no \<^verbatim>\<open>get\<close>.
\<close>

definition goods_search_page :: "reply \<Rightarrow> error + (json \<times> json)" where
  "goods_search_page rp =
     (case rp of
        Raises e \<Rightarrow> Inl e
      | Body data \<Rightarrow>
          (case data of
             JDict d \<Rightarrow>
               Inr (py_or (dict_get d (u ''items'') (JList [])) (JList []),
                    py_or (dict_get d (u ''token'') (JStr [])) (JStr []))
           | _ \<Rightarrow> Inl AttributeError))"

text \<open>
  The test of the inner loop:
  \<^verbatim>\<open>qty = it.get("quantity"); isinstance(qty, int) and qty > 0\<close>.
\<close>

definition in_stock :: "json \<Rightarrow> error + bool" where
  "in_stock it =
     (case it of
        JDict d \<Rightarrow>
          (let qty = dict_get d (u ''quantity'') JNull
           in Inr (isinstance_int qty \<and> int_value qty > 0))
      | _ \<Rightarrow> Inl AttributeError)"

text \<open>
  The generator hands each item it yields to the body of the \<^verbatim>\<open>for\<close> loop that
  consumes it, and goes on when the body is done; an exception of the body ends both.
  The body is the parameter \<open>f\<close>, working on an accumulator.
  \<open>for_items\<close> is the inner loop \<^verbatim>\<open>for it in items\<close>.
\<close>

fun for_items :: "('a \<Rightarrow> json \<Rightarrow> error + 'a) \<Rightarrow> json list \<Rightarrow> 'a \<Rightarrow> error + 'a" where
  "for_items f [] acc = Inr acc"
| "for_items f (it # its) acc =
     (case in_stock it of
        Inl e \<Rightarrow> Inl e
      | Inr False \<Rightarrow> for_items f its acc
      | Inr True \<Rightarrow>
          (case f acc it of
             Inl e \<Rightarrow> Inl e
           | Inr acc' \<Rightarrow> for_items f its acc'))"

text \<open>
  The outer loop \<^verbatim>\<open>while True\<close>. The result is the outcome of the run (\<open>None\<close> while
  it waits for a reply the list does not hold) and the requests that were answered, in
  order. The pause between pages (\<^verbatim>\<open>time.sleep\<close>) has no effect on either.
\<close>

fun page_loop ::
  "('a \<Rightarrow> json \<Rightarrow> error + 'a) \<Rightarrow> int \<Rightarrow> ustring \<Rightarrow> int \<Rightarrow> reply list \<Rightarrow> int \<Rightarrow> json \<Rightarrow> 'a
     \<Rightarrow> (error + 'a) option \<times> request list" where
  "page_loop f category_id city_id limit [] offset search_token acc = (None, [])"
| "page_loop f category_id city_id limit (rp # rps) offset search_token acc =
     (let rq = \<lparr>req_category = category_id, req_city = city_id, req_offset = offset,
                req_limit = limit, req_token = search_token\<rparr>
      in case goods_search_page rp of
           Inl e \<Rightarrow> (Some (Inl e), [rq])
         | Inr (items, search_token') \<Rightarrow>
             if \<not> truthy items then (Some (Inr acc), [rq])
             else
               (case py_iter items of
                  Inl e \<Rightarrow> (Some (Inl e), [rq])
                | Inr its \<Rightarrow>
                    (case for_items f its acc of
                       Inl e \<Rightarrow> (Some (Inl e), [rq])
                     | Inr acc' \<Rightarrow>
                         (let run = page_loop f category_id city_id limit rps
                                      (offset + limit) search_token' acc'
                          in (fst run, rq # snd run)))))"

text \<open>The body of \<^verbatim>\<open>list(...)\<close>: keep what is yielded, in order.\<close>

definition collect :: "json list \<Rightarrow> json \<Rightarrow> error + json list" where
  "collect acc it = Inr (acc @ [it])"

text \<open>
  \<^verbatim>\<open>iter_coffee_products_in_stock\<close>, drained: \<^verbatim>\<open>offset = 0\<close>,
  \<^verbatim>\<open>search_token = ""\<close>, and the items yielded.
\<close>

definition iter_coffee_products_in_stock ::
  "int \<Rightarrow> ustring \<Rightarrow> int \<Rightarrow> reply list \<Rightarrow> (error + json list) option \<times> request list" where
  "iter_coffee_products_in_stock category_id city_id limit replies =
     page_loop collect category_id city_id limit replies 0 (JStr []) []"

text \<open>
  The words of the specification. An item's quantity is a positive integer when the field
  holds an integer \<open>n \<ge> 1\<close>, or the boolean \<^verbatim>\<open>true\<close> (an \<^verbatim>\<open>int\<close> of value 1 in Python).
\<close>

definition positive_quantity :: "json \<Rightarrow> bool" where
  "positive_quantity it =
     (case it of
        JDict d \<Rightarrow>
          (case map_of d (u ''quantity'') of
             Some (JInt n) \<Rightarrow> 1 \<le> n
           | Some (JBool b) \<Rightarrow> b
           | _ \<Rightarrow> False)
      | _ \<Rightarrow> False)"

text \<open>A page that stops the loop: the reply is read, and its items are falsy.\<close>

definition empty_page :: "reply \<Rightarrow> bool" where
  "empty_page rp =
     (case goods_search_page rp of
        Inl e \<Rightarrow> False
      | Inr (items, tok) \<Rightarrow> \<not> truthy items)"

text \<open>A page of items: a non-empty list of JSON objects.\<close>

definition page_items :: "reply \<Rightarrow> json list option" where
  "page_items rp =
     (case goods_search_page rp of
        Inr (JList its, tok) \<Rightarrow> if its \<noteq> [] \<and> list_all is_dict its then Some its else None
      | _ \<Rightarrow> None)"

definition in_stock_items :: "reply \<Rightarrow> json list" where
  "in_stock_items rp =
     (case page_items rp of None \<Rightarrow> [] | Some its \<Rightarrow> filter positive_quantity its)"

text \<open>The reply of a server that sends the given items and continuation token.\<close>

definition page :: "json list \<Rightarrow> ustring \<Rightarrow> reply" where
  "page its tok = Body (JDict [(u ''items'', JList its), (u ''token'', JStr tok)])"

definition item :: "int \<Rightarrow> json \<Rightarrow> json" where
  "item n qty = JDict [(u ''id'', JInt n), (u ''quantity'', qty)]"

section \<open>Python strings and regular expressions\<close>

text \<open>
  The characters for which \<^verbatim>\<open>str.isspace\<close> holds; \<^verbatim>\<open>str.strip()\<close> removes them
  and the class \<^verbatim>\<open>\s\<close> of \<^verbatim>\<open>re\<close> matches them.
\<close>

definition is_space :: "nat \<Rightarrow> bool" where
  "is_space c =
     (c \<in> set [9, 10, 11, 12, 13, 28, 29, 30, 31, 32, 133, 160, 5760, 8232, 8233, 8239, 8287, 12288]
      \<or> (8192 \<le> c \<and> c \<le> 8202))"

definition py_strip :: "ustring \<Rightarrow> ustring" where
  "py_strip s = rev (dropWhile is_space (rev (dropWhile is_space s)))"

text \<open>\<^verbatim>\<open>s.strip(chars)\<close>.\<close>

definition strip_chars :: "ustring \<Rightarrow> ustring \<Rightarrow> ustring" where
  "strip_chars chars s =
     rev (dropWhile (\<lambda>c. c \<in> set chars) (rev (dropWhile (\<lambda>c. c \<in> set chars) s)))"

text \<open>
  \<^verbatim>\<open>str.lower()\<close>, on Basic Latin and on the Cyrillic block: A-Z, and U+0400 to U+042F.
  The full Unicode case tables are not reproduced; any other code point is left as it is.
  The theorems below that hold for every string do not depend on this table.
\<close>

definition lower_cp :: "nat \<Rightarrow> nat" where
  "lower_cp c =
     (if 65 \<le> c \<and> c \<le> 90 then c + 32
      else if 1040 \<le> c \<and> c \<le> 1071 then c + 32
      else if 1024 \<le> c \<and> c \<le> 1039 then c + 80
      else c)"

definition py_lower :: "ustring \<Rightarrow> ustring" where
  "py_lower s = map lower_cp s"

text \<open>\<^verbatim>\<open>k in key\<close> on strings: \<open>k\<close> occurs in \<open>key\<close> as a contiguous run.\<close>

fun py_in :: "ustring \<Rightarrow> ustring \<Rightarrow> bool" where
  "py_in k [] = (k = [])"
| "py_in k (c # cs) = (prefix k (c # cs) \<or> py_in k cs)"

text \<open>
  The pieces of the regular expressions of the script. A literal of a pattern compiled
  with \<^verbatim>\<open>re.I\<close> (the literals of the script are lower case) matches a character whose lower
  case it is; \<open>match_lit\<close> gives what is left of the subject after the literal.
  \<^verbatim>\<open>\s+\<close> is greedy, and what follows it in the patterns of the script never starts with
  white space, so it takes the whole run.
\<close>

fun match_lit :: "ustring \<Rightarrow> ustring \<Rightarrow> ustring option" where
  "match_lit [] s = Some s"
| "match_lit (p # ps) [] = None"
| "match_lit (p # ps) (c # cs) = (if lower_cp c = p then match_lit ps cs else None)"

definition match_spaces :: "ustring \<Rightarrow> ustring option" where
  "match_spaces s =
     (case s of
        [] \<Rightarrow> None
      | c # cs \<Rightarrow> if is_space c then Some (dropWhile is_space cs) else None)"

text \<open>
  \<^verbatim>\<open>$\<close> without \<^verbatim>\<open>re.M\<close> matches at the end of the subject and before a line feed that
  ends it.
\<close>

definition re_dollar :: "ustring \<Rightarrow> bool" where
  "re_dollar rest = (rest = [] \<or> rest = [10])"

text \<open>
  \<^verbatim>\<open>re.split(r"[\s,]+", s)\<close>: the pieces of \<open>s\<close> between the maximal runs of white space
  and commas; a run at either end leaves an empty piece there. The flag says that the
  character before was a separator.
\<close>

definition is_sep :: "nat \<Rightarrow> bool" where
  "is_sep c = (is_space c \<or> c = 44)"

fun re_split_from :: "bool \<Rightarrow> ustring \<Rightarrow> ustring list" where
  "re_split_from in_sep [] = [[]]"
| "re_split_from in_sep (c # cs) =
     (if is_sep c then (if in_sep then re_split_from True cs else [] # re_split_from True cs)
      else (case re_split_from False cs of
              [] \<Rightarrow> [[c]]
            | t # ts \<Rightarrow> (c # t) # ts))"

definition re_split :: "ustring \<Rightarrow> ustring list" where
  "re_split s = re_split_from False s"

text \<open>Decimal digits of a natural number and of an integer, as \<^verbatim>\<open>str(n)\<close> writes them.\<close>

fun show_nat :: "nat \<Rightarrow> ustring" where
  "show_nat n = (if n < 10 then [48 + n] else show_nat (n div 10) @ [48 + n mod 10])"

declare show_nat.simps [simp del]

definition show_int :: "int \<Rightarrow> ustring" where
  "show_int i = (if i < 0 then 45 # show_nat (nat (- i)) else show_nat (nat i))"

text \<open>
  \<^verbatim>\<open>str(x)\<close> of a decoded JSON value, for the values whose text is computed here: a
  string is itself, an integer is its decimal digits, and the constants are
  \<^verbatim>\<open>True\<close>, \<^verbatim>\<open>False\<close>, \<^verbatim>\<open>None\<close>. The text of a float, a list or a dict (their
  \<^verbatim>\<open>repr\<close>) is not computed, and the limit that recent versions of Python put on
  the number of digits of an integer is not modelled.
\<close>

fun py_str :: "json \<Rightarrow> error + ustring" where
  "py_str (JStr s) = Inr s"
| "py_str (JInt n) = Inr (show_int n)"
| "py_str (JBool b) = Inr (if b then u ''True'' else u ''False'')"
| "py_str JNull = Inr (u ''None'')"
| "py_str v = Inl Unmodelled"

text \<open>
  \<^verbatim>\<open>int(x)\<close>: an integer is itself, a boolean is 0 or 1, a finite float is truncated
  towards zero, \<^verbatim>\<open>None\<close>, a list and a dict are a type error. The parsing of a string
  is not computed.
\<close>

fun py_int :: "json \<Rightarrow> error + int" where
  "py_int (JInt n) = Inr n"
| "py_int (JBool b) = Inr (if b then 1 else 0)"
| "py_int (JFloat r) = Inr (if r < 0 then - \<lfloor>- r\<rfloor> else \<lfloor>r\<rfloor>)"
| "py_int (JStr s) = Inl Unmodelled"
| "py_int v = Inl TypeError"

section \<open>Brand extraction\<close>

text \<open>
  The Cyrillic literals of \<^verbatim>\<open>extract_brand_from_name\<close>, as code points: the words
  "kofe", "kofejnyj", "napitok", "kofejnye", "napitki" of the prefix pattern.
\<close>

definition kofe :: ustring where
  "kofe = [1082, 1086, 1092, 1077]"

definition kofejnyj :: ustring where
  "kofejnyj = [1082, 1086, 1092, 1077, 1081, 1085, 1099, 1081]"

definition napitok :: ustring where
  "napitok = [1085, 1072, 1087, 1080, 1090, 1086, 1082]"

definition kofejnye :: ustring where
  "kofejnye = [1082, 1086, 1092, 1077, 1081, 1085, 1099, 1077]"

definition napitki :: ustring where
  "napitki = [1085, 1072, 1087, 1080, 1090, 1082, 1080]"

text \<open>
  \<^verbatim>\<open>re.sub(r"^(kofe|kofejnyj\s+napitok|kofejnye\s+napitki)\s+", "", s, flags=re.I)\<close>,
  with the Cyrillic words in place of their transliterations. The pattern is anchored at
  the start, so there is at most one match; the alternatives are tried in order, and the
  next one is tried when the rest of the pattern fails after the one before.
\<close>

definition re_sub_prefix :: "ustring \<Rightarrow> ustring" where
  "re_sub_prefix s =
     (case Option.bind (match_lit kofe s) match_spaces of
        Some rest \<Rightarrow> rest
      | None \<Rightarrow>
          (case Option.bind (Option.bind (Option.bind (match_lit kofejnyj s) match_spaces)
                  (match_lit napitok)) match_spaces of
             Some rest \<Rightarrow> rest
           | None \<Rightarrow>
               (case Option.bind (Option.bind (Option.bind (match_lit kofejnye s) match_spaces)
                       (match_lit napitki)) match_spaces of
                  Some rest \<Rightarrow> rest
                | None \<Rightarrow> s)))"

text \<open>
  The stop list \<^verbatim>\<open>skip\<close>, in the order of the source: "rastvorimyj", "molotyj",
  "zernovoj", "naturalnyj", "zharenyj", "sublimirovannyj", "v", "kapsulah", "drip",
  "drip-paketah", "smes", "dlya", "kofemashin", "espresso", "arabika", "robusta", "ves",
  "g", "kg", "ml".
\<close>

definition skip :: "ustring list" where
  "skip =
    [[1088, 1072, 1089, 1090, 1074, 1086, 1088, 1080, 1084, 1099, 1081],
     [1084, 1086, 1083, 1086, 1090, 1099, 1081],
     [1079, 1077, 1088, 1085, 1086, 1074, 1086, 1081],
     [1085, 1072, 1090, 1091, 1088, 1072, 1083, 1100, 1085, 1099, 1081],
     [1078, 1072, 1088, 1077, 1085, 1099, 1081],
     [1089, 1091, 1073, 1083, 1080, 1084, 1080, 1088, 1086, 1074, 1072, 1085, 1085, 1099, 1081],
     [1074],
     [1082, 1072, 1087, 1089, 1091, 1083, 1072, 1093],
     [1076, 1088, 1080, 1087],
     [1076, 1088, 1080, 1087, 45, 1087, 1072, 1082, 1077, 1090, 1072, 1093],
     [1089, 1084, 1077, 1089, 1100],
     [1076, 1083, 1103],
     [1082, 1086, 1092, 1077, 1084, 1072, 1096, 1080, 1085],
     [1101, 1089, 1087, 1088, 1077, 1089, 1089, 1086],
     [1072, 1088, 1072, 1073, 1080, 1082, 1072],
     [1088, 1086, 1073, 1091, 1089, 1090, 1072],
     [1074, 1077, 1089],
     [1075],
     [1082, 1075],
     [1084, 1083]]"

text \<open>
  \<^verbatim>\<open>tt = t.strip().strip("()[]{}\"'").replace(left, "").replace(right, "")\<close>, where
  \<^verbatim>\<open>left\<close> and \<^verbatim>\<open>right\<close> are the angle quotation marks U+00AB and U+00BB.
\<close>

definition clean_token :: "ustring \<Rightarrow> ustring" where
  "clean_token t =
     filter (\<lambda>c. c \<noteq> 187)
       (filter (\<lambda>c. c \<noteq> 171)
          (strip_chars [40, 41, 91, 93, 123, 125, 34, 39] (py_strip t)))"

text \<open>The character classes of the three token patterns.\<close>

definition latin_upper :: "nat \<Rightarrow> bool" where
  "latin_upper c = (65 \<le> c \<and> c \<le> 90)"

definition latin_word :: "nat \<Rightarrow> bool" where
  "latin_word c = ((65 \<le> c \<and> c \<le> 90) \<or> (97 \<le> c \<and> c \<le> 122) \<or> (48 \<le> c \<and> c \<le> 57) \<or> c = 45)"

definition cyrillic_upper :: "nat \<Rightarrow> bool" where
  "cyrillic_upper c = ((1040 \<le> c \<and> c \<le> 1071) \<or> c = 1025)"

definition cyrillic_word :: "nat \<Rightarrow> bool" where
  "cyrillic_word c =
     ((1040 \<le> c \<and> c \<le> 1071) \<or> (1072 \<le> c \<and> c \<le> 1103) \<or> c = 1025 \<or> c = 1105
      \<or> (48 \<le> c \<and> c \<le> 57) \<or> c = 45)"

definition upper_word :: "nat \<Rightarrow> bool" where
  "upper_word c = ((65 \<le> c \<and> c \<le> 90) \<or> (48 \<le> c \<and> c \<le> 57) \<or> c = 45)"

text \<open>
  \<^verbatim>\<open>re.match(r"^[A-Z][A-Za-z0-9\-]+$", tt)\<close>, its Cyrillic counterpart with the classes
  of the capital letters and of the letters of the Russian alphabet, and
  \<^verbatim>\<open>re.match(r"^[A-Z0-9\-]{2,}$", tt)\<close>. The repetition is greedy, and giving back a
  character of the class never lets \<^verbatim>\<open>$\<close> match, so the whole run is taken.
\<close>

definition re_capitalised :: "(nat \<Rightarrow> bool) \<Rightarrow> (nat \<Rightarrow> bool) \<Rightarrow> ustring \<Rightarrow> bool" where
  "re_capitalised first word tt =
     (case tt of
        [] \<Rightarrow> False
      | c # cs \<Rightarrow> first c \<and> takeWhile word cs \<noteq> [] \<and> re_dollar (dropWhile word cs))"

definition re_all_upper :: "ustring \<Rightarrow> bool" where
  "re_all_upper tt = (2 \<le> length (takeWhile upper_word tt) \<and> re_dollar (dropWhile upper_word tt))"

text \<open>The two loops over the tokens, each ended by its first \<^verbatim>\<open>return\<close>.\<close>

fun first_brand_like :: "ustring list \<Rightarrow> ustring option" where
  "first_brand_like [] = None"
| "first_brand_like (t # ts) =
     (let tt = clean_token t
      in if tt = [] \<or> py_lower tt \<in> set skip then first_brand_like ts
         else if re_capitalised latin_upper latin_word tt
                 \<or> re_capitalised cyrillic_upper cyrillic_word tt then Some tt
         else if re_all_upper tt then Some tt
         else first_brand_like ts)"

fun first_kept :: "ustring list \<Rightarrow> ustring option" where
  "first_kept [] = None"
| "first_kept (t # ts) =
     (let tt = clean_token t
      in if tt \<noteq> [] \<and> py_lower tt \<notin> set skip then Some tt else first_kept ts)"

definition extract_brand_from_name :: "ustring \<Rightarrow> ustring" where
  "extract_brand_from_name nm =
     (let s = py_strip nm;
          s = re_sub_prefix s;
          tokens = re_split s
      in if tokens = [] then []
         else (case first_brand_like tokens of
                 Some tt \<Rightarrow> tt
               | None \<Rightarrow> (case first_kept tokens of Some tt \<Rightarrow> tt | None \<Rightarrow> [])))"

text \<open>
  The words of the specification. A token is brand-like when it is a capital Latin letter
  followed by one or more Latin letters, digits or hyphens, or a capital Cyrillic letter
  followed by one or more Cyrillic letters, digits or hyphens, or two or more capital Latin
  letters, digits or hyphens.
\<close>

definition brand_like :: "ustring \<Rightarrow> bool" where
  "brand_like tt =
     ((case tt of
         [] \<Rightarrow> False
       | c # cs \<Rightarrow>
           cs \<noteq> [] \<and>
           ((latin_upper c \<and> list_all latin_word cs) \<or>
            (cyrillic_upper c \<and> list_all cyrillic_word cs)))
      \<or> (2 \<le> length tt \<and> list_all upper_word tt))"

text \<open>
  The steps of the specification, written without the regular expressions and the loops
  of the code. A name starts with a word when it has more characters than the word, its
  first characters are the letters of the word in either case, and white space follows
  them; what comes after the word starts behind that white space.
\<close>

definition starts_with_word :: "ustring \<Rightarrow> ustring \<Rightarrow> bool" where
  "starts_with_word w s =
     (length w < length s \<and> py_lower (take (length w) s) = w \<and> is_space (s ! length w))"

definition after_word :: "ustring \<Rightarrow> ustring \<Rightarrow> ustring" where
  "after_word w s = dropWhile is_space (drop (length w) s)"

fun after_words :: "ustring list \<Rightarrow> ustring \<Rightarrow> ustring option" where
  "after_words [] s = Some s"
| "after_words (w # ws) s =
     (if starts_with_word w s then after_words ws (after_word w s) else None)"

text \<open>
  The generic prefixes: "kofe" (coffee), "kofejnyj napitok" (coffee beverage) and its
  plural "kofejnye napitki", each a list of words.
\<close>

definition generic_prefixes :: "ustring list list" where
  "generic_prefixes =
     [[[1082, 1086, 1092, 1077]],
      [[1082, 1086, 1092, 1077, 1081, 1085, 1099, 1081],
       [1085, 1072, 1087, 1080, 1090, 1086, 1082]],
      [[1082, 1086, 1092, 1077, 1081, 1085, 1099, 1077],
       [1085, 1072, 1087, 1080, 1090, 1082, 1080]]]"

definition without_generic_prefix :: "ustring \<Rightarrow> ustring" where
  "without_generic_prefix s =
     (case List.map_filter (\<lambda>ws. after_words ws s) generic_prefixes of
        [] \<Rightarrow> s
      | rest # others \<Rightarrow> rest)"

text \<open>
  The tokens of a text: its maximal runs of characters that are neither white space nor
  a comma, from left to right; \<open>w\<close> is the run read so far.
\<close>

fun tokens_from :: "ustring \<Rightarrow> ustring \<Rightarrow> ustring list" where
  "tokens_from w [] = (if w = [] then [] else [w])"
| "tokens_from w (c # cs) =
     (if is_space c \<or> c = 44
      then (if w = [] then tokens_from [] cs else w # tokens_from [] cs)
      else tokens_from (w @ [c]) cs)"

definition tokens_of :: "ustring \<Rightarrow> ustring list" where
  "tokens_of s = tokens_from [] s"

text \<open>
  A token without the brackets and quotes around it (round, square and curly brackets,
  the double quote and the apostrophe) and without any angle quotation mark.
\<close>

definition is_wrapper :: "nat \<Rightarrow> bool" where
  "is_wrapper c =
     (c = 40 \<or> c = 41 \<or> c = 91 \<or> c = 93 \<or> c = 123 \<or> c = 125 \<or> c = 34 \<or> c = 39)"

definition bare_token :: "ustring \<Rightarrow> ustring" where
  "bare_token t =
     filter (\<lambda>c. c \<noteq> 171 \<and> c \<noteq> 187)
       (rev (dropWhile is_wrapper (rev (dropWhile is_wrapper t))))"

text \<open>
  The stop list: the words for instant, ground, bean, natural, roasted, freeze-dried, in,
  capsules, drip, drip bags, blend, for, coffee machines, espresso, arabica, robusta,
  weight, and the units g, kg and ml. A token is stop-listed when its lower case is one of
  them.
\<close>

definition stop_words :: "ustring list" where
  "stop_words =
    [[1088, 1072, 1089, 1090, 1074, 1086, 1088, 1080, 1084, 1099, 1081],
     [1084, 1086, 1083, 1086, 1090, 1099, 1081],
     [1079, 1077, 1088, 1085, 1086, 1074, 1086, 1081],
     [1085, 1072, 1090, 1091, 1088, 1072, 1083, 1100, 1085, 1099, 1081],
     [1078, 1072, 1088, 1077, 1085, 1099, 1081],
     [1089, 1091, 1073, 1083, 1080, 1084, 1080, 1088, 1086, 1074, 1072, 1085, 1085, 1099, 1081],
     [1074],
     [1082, 1072, 1087, 1089, 1091, 1083, 1072, 1093],
     [1076, 1088, 1080, 1087],
     [1076, 1088, 1080, 1087, 45, 1087, 1072, 1082, 1077, 1090, 1072, 1093],
     [1089, 1084, 1077, 1089, 1100],
     [1076, 1083, 1103],
     [1082, 1086, 1092, 1077, 1084, 1072, 1096, 1080, 1085],
     [1101, 1089, 1087, 1088, 1077, 1089, 1089, 1086],
     [1072, 1088, 1072, 1073, 1080, 1082, 1072],
     [1088, 1086, 1073, 1091, 1089, 1090, 1072],
     [1074, 1077, 1089],
     [1075],
     [1082, 1075],
     [1084, 1083]]"

definition stop_listed :: "ustring \<Rightarrow> bool" where
  "stop_listed tt = (py_lower tt \<in> set stop_words)"

text \<open>
  The tokens that remain: the tokens of the trimmed name without its generic prefix, each
  without its wrapping, the empty and the stop-listed ones left out. The brand is the first
  brand-like one of them, or else the first of them, or else the empty string.
\<close>

definition remaining_tokens :: "ustring \<Rightarrow> ustring list" where
  "remaining_tokens nm =
     filter (\<lambda>tt. tt \<noteq> [] \<and> \<not> stop_listed tt)
       (map bare_token (tokens_of (without_generic_prefix (py_strip nm))))"

definition brand_of_tokens :: "ustring list \<Rightarrow> ustring" where
  "brand_of_tokens toks =
     (case find brand_like toks of
        Some tt \<Rightarrow> tt
      | None \<Rightarrow> (case toks of [] \<Rightarrow> [] | tt # rest \<Rightarrow> tt))"

section \<open>Money conversion and the row transformer\<close>

text \<open>
  A price of the script is a Python float. It is modelled by the decimal number it stands
  for, a rational: \<^verbatim>\<open>value / 100.0\<close> is the quotient, and \<^verbatim>\<open>round(x, 2)\<close> rounds
  to the nearest multiple of one hundredth, ties to even. For an integer below \<open>2 ^ 52\<close>
  in absolute value the float that Python computes is the double nearest to that number of
  hundredths, and it is printed with two digits as that number; this is what the rational
  stands for. The division converts the integer to a float first, which raises
  \<^verbatim>\<open>OverflowError\<close> from \<open>2 ^ 1024 - 2 ^ 970\<close> on. Between the two bounds the float
  has lost the hundredths of the integer, and the result is not modelled.
\<close>

definition round_half_even :: "rat \<Rightarrow> int" where
  "round_half_even x =
     (let f = \<lfloor>x\<rfloor>; d = x - of_int f
      in if d < 1 / 2 then f else if 1 / 2 < d then f + 1 else if even f then f else f + 1)"

definition py_round2 :: "rat \<Rightarrow> rat" where
  "py_round2 x = of_int (round_half_even (x * 100)) / 100"

definition float_overflow :: "int \<Rightarrow> bool" where
  "float_overflow v = (2 ^ 1024 - 2 ^ 970 \<le> \<bar>v\<bar>)"

definition float_exact :: "int \<Rightarrow> bool" where
  "float_exact v = (\<bar>v\<bar> < 2 ^ 52)"

text \<open>
  \<^verbatim>\<open>money_from_int\<close>: \<^verbatim>\<open>None\<close> stays \<^verbatim>\<open>None\<close>; an integer (a boolean is one) is
  divided by 100 and rounded to 2 digits; a string, a list or a dict cannot be divided.
  The function is typed for integers; what it computes from a float is not modelled.
\<close>

definition money_from_int :: "json \<Rightarrow> error + rat option" where
  "money_from_int v =
     (case v of
        JNull \<Rightarrow> Inr None
      | JInt n \<Rightarrow>
          if float_overflow n then Inl OverflowError
          else if float_exact n then Inr (Some (py_round2 (of_int n / 100)))
          else Inl Unmodelled
      | JBool b \<Rightarrow> Inr (Some (py_round2 (of_int (int_value (JBool b)) / 100)))
      | JFloat r \<Rightarrow> Inl Unmodelled
      | _ \<Rightarrow> Inl TypeError)"

record ProductRow =
  product_id :: ustring
  name :: ustring
  regular_price :: "rat option"
  promo_price :: "rat option"
  brand :: ustring
  city :: ustring

text \<open>
  \<^verbatim>\<open>to_row\<close>, statement by statement: \<^verbatim>\<open>promo = it.get("promotion") or {}\<close>,
  \<^verbatim>\<open>is_promo = bool(promo.get("isPromotion"))\<close>, the two prices, the name, the product
  id and the brand. A value without the method called on it (\<^verbatim>\<open>get\<close>, \<^verbatim>\<open>strip\<close>)
  raises \<^verbatim>\<open>AttributeError\<close>.
\<close>

definition to_row :: "json \<Rightarrow> ustring \<Rightarrow> error + ProductRow" where
  "to_row it city_name =
     (case it of
        JDict d \<Rightarrow>
          (case py_or (dict_get d (u ''promotion'') JNull) (JDict []) of
             JDict promo \<Rightarrow>
               (let is_promo = truthy (dict_get promo (u ''isPromotion'') JNull);
                    price = dict_get d (u ''price'') JNull;
                    old_price = dict_get promo (u ''oldPrice'') JNull
                in case (if is_promo then money_from_int price else Inr None) of
                     Inl e \<Rightarrow> Inl e
                   | Inr promo_p \<Rightarrow>
                       (case (if is_promo \<and> isinstance_int old_price
                              then money_from_int old_price else money_from_int price) of
                          Inl e \<Rightarrow> Inl e
                        | Inr regular_p \<Rightarrow>
                            (case py_or (dict_get d (u ''name'') JNull) (JStr []) of
                               JStr nm \<Rightarrow>
                                 (case py_str (py_or (py_or (dict_get d (u ''productId'') JNull)
                                                       (dict_get d (u ''id'') JNull)) (JStr [])) of
                                    Inl e \<Rightarrow> Inl e
                                  | Inr pid \<Rightarrow>
                                      Inr \<lparr>product_id = py_strip pid,
                                           name = py_strip nm,
                                           regular_price = regular_p,
                                           promo_price = promo_p,
                                           brand = extract_brand_from_name (py_strip nm),
                                           city = city_name\<rparr>)
                             | _ \<Rightarrow> Inl AttributeError)))
           | _ \<Rightarrow> Inl AttributeError)
      | _ \<Rightarrow> Inl AttributeError)"

text \<open>
  An item with the field types the script is written for: the price an integer or absent,
  the promotion an object or absent (its old price, when an integer, below \<open>2 ^ 52\<close> in
  absolute value as the price is), the name a string or absent, the identifier a string or an integer or absent.
\<close>

definition plain_item :: "(ustring \<times> json) list \<Rightarrow> bool" where
  "plain_item d =
     ((case dict_get d (u ''price'') JNull of
         JNull \<Rightarrow> True | JInt n \<Rightarrow> float_exact n | JBool b \<Rightarrow> True | _ \<Rightarrow> False) \<and>
      (case py_or (dict_get d (u ''promotion'') JNull) (JDict []) of
         JDict promo \<Rightarrow>
           (case dict_get promo (u ''oldPrice'') JNull of
              JInt n \<Rightarrow> float_exact n | _ \<Rightarrow> True)
       | _ \<Rightarrow> False) \<and>
      (case py_or (dict_get d (u ''name'') JNull) (JStr []) of JStr nm \<Rightarrow> True | _ \<Rightarrow> False) \<and>
      (case py_or (py_or (dict_get d (u ''productId'') JNull) (dict_get d (u ''id'') JNull))
              (JStr []) of
         JStr s \<Rightarrow> True | JInt n \<Rightarrow> True | JBool b \<Rightarrow> True | _ \<Rightarrow> False))"

section \<open>The city resolver\<close>

definition FIAS_SPB :: ustring where
  "FIAS_SPB = u ''c2deb16a-0330-4f05-821f-1d09c93331e6''"

definition FIAS_MOSCOW :: ustring where
  "FIAS_MOSCOW = u ''0c5b2444-70a0-4932-980c-b4dc0d3f02b5''"

text \<open>
  The table \<^verbatim>\<open>KNOWN_CITIES\<close>, in the order it is written (the order in which a Python
  dict is iterated). Its Cyrillic keys are "moskva", "sankt-peterburg", "sankt peterburg",
  "spb" and "piter".
\<close>

definition KNOWN_CITIES :: "(ustring \<times> ustring) list" where
  "KNOWN_CITIES =
    [([1084, 1086, 1089, 1082, 1074, 1072], FIAS_MOSCOW),
     (u ''moscow'', FIAS_MOSCOW),
     (u ''msk'', FIAS_MOSCOW),
     ([1089, 1072, 1085, 1082, 1090, 45, 1087, 1077, 1090, 1077, 1088, 1073, 1091, 1088, 1075],
      FIAS_SPB),
     ([1089, 1072, 1085, 1082, 1090, 32, 1087, 1077, 1090, 1077, 1088, 1073, 1091, 1088, 1075],
      FIAS_SPB),
     ([1089, 1087, 1073], FIAS_SPB),
     ([1087, 1080, 1090, 1077, 1088], FIAS_SPB),
     (u ''saint petersburg'', FIAS_SPB),
     (u ''st petersburg'', FIAS_SPB),
     (u ''spb'', FIAS_SPB)]"

text \<open>
  The branch \<^verbatim>\<open>elif city\<close>: \<^verbatim>\<open>key = city.strip().lower()\<close>, the exact lookup
  \<^verbatim>\<open>KNOWN_CITIES.get(key)\<close>, and when that finds nothing the loop over the items of the
  table, left at the first key that occurs in \<open>key\<close>.
\<close>

definition fias_of_city :: "ustring \<Rightarrow> ustring option" where
  "fias_of_city c =
     (let key = py_lower (py_strip c)
      in case map_of KNOWN_CITIES key of
           Some v \<Rightarrow> Some v
         | None \<Rightarrow>
             (case find (\<lambda>kv. py_in (fst kv) key) KNOWN_CITIES of
                Some kv \<Rightarrow> Some (snd kv)
              | None \<Rightarrow> None))"

text \<open>
  The first part of \<^verbatim>\<open>resolve_city\<close>, up to the \<^verbatim>\<open>raise\<close>: the two arguments are the
  optional command line values \<^verbatim>\<open>city\<close> and \<^verbatim>\<open>fias_id\<close>. \<^verbatim>\<open>if fias_id\<close> and
  \<^verbatim>\<open>elif city\<close> hold for a string that is not empty; \<^verbatim>\<open>if not fias\<close> holds for
  \<^verbatim>\<open>None\<close> and for the empty string.
\<close>

definition resolve_fias :: "ustring option \<Rightarrow> ustring option \<Rightarrow> error + ustring" where
  "resolve_fias city_arg fias_id =
     (let fias =
        (if fias_id \<noteq> None \<and> fias_id \<noteq> Some [] then map_option py_strip fias_id
         else if city_arg \<noteq> None \<and> city_arg \<noteq> Some [] then Option.bind city_arg fias_of_city
         else None)
      in case fias of
           None \<Rightarrow> Inl (RuntimeError NoFiasId)
         | Some f \<Rightarrow> if f = [] then Inl (RuntimeError NoFiasId) else Inr f)"

text \<open>
  \<^verbatim>\<open>resolve_city\<close>. The service is the function from the \<^verbatim>\<open>fiasId\<close> that is posted to
  the reply. The result is \<^verbatim>\<open>(city_id, city_name, fias)\<close>.
\<close>

definition resolve_city ::
  "(ustring \<Rightarrow> reply) \<Rightarrow> ustring option \<Rightarrow> ustring option \<Rightarrow> error + (ustring \<times> ustring \<times> ustring)" where
  "resolve_city city_info city_arg fias_id =
     (case resolve_fias city_arg fias_id of
        Inl e \<Rightarrow> Inl e
      | Inr fias \<Rightarrow>
          (case city_info fias of
             Raises e \<Rightarrow> Inl e
           | Body data \<Rightarrow>
               (case data of
                  JDict d \<Rightarrow>
                    (case py_str (dict_get d (u ''cityId'') (JStr [])) of
                       Inl e \<Rightarrow> Inl e
                     | Inr cid \<Rightarrow>
                         (case py_str (dict_get d (u ''name'') (JStr [])) of
                            Inl e \<Rightarrow> Inl e
                          | Inr nm \<Rightarrow>
                              (let city_id = py_strip cid;
                                   city_name =
                                     (if py_strip nm \<noteq> [] then py_strip nm
                                      else (case city_arg of None \<Rightarrow> [] | Some c \<Rightarrow> c))
                               in if city_id = [] then Inl (RuntimeError NoCityId)
                                  else Inr (city_id, city_name, fias))))
                | _ \<Rightarrow> Inl AttributeError)))"

text \<open>No explicit geo-identifier: the option was not given, or given empty.\<close>

definition no_explicit :: "ustring option \<Rightarrow> bool" where
  "no_explicit fias_id = (fias_id = None \<or> fias_id = Some [])"

text \<open>A city-info service that knows one city.\<close>

definition one_city :: "ustring \<Rightarrow> reply" where
  "one_city fias = Body (JDict [(u ''cityId'', JInt 1), (u ''name'', JStr (u ''Moscow''))])"

section \<open>The category locator\<close>

text \<open>The name of the category that is looked for, "Kofe" in Cyrillic with a capital K.\<close>

definition Kofe :: ustring where
  "Kofe = [1050, 1086, 1092, 1077]"

text \<open>
  The walk of \<^verbatim>\<open>get_coffee_category_id\<close> calls itself on what the \<^verbatim>\<open>for\<close> loops give
  it: the elements of a list, but also the one-character strings of a string and the keys
  of a dict, which are not parts of the value. \<open>weight\<close> measures a value so that each of
  them weighs less than the value; it is only used to show that the walk ends.
\<close>

primrec weight :: "json \<Rightarrow> nat" where
  "weight JNull = 0"
| "weight (JBool b) = 0"
| "weight (JInt n) = 0"
| "weight (JFloat r) = 0"
| "weight (JStr s) = length s - 1"
| "weight (JList xs) = Suc (sum_list (map Suc (map weight xs)))"
| "weight (JDict d) =
     Suc (sum_list (map (\<lambda>kw. length (fst kw) + 2 + snd kw) (map (map_prod id weight) d)))"

lemma weight_map_of: "map_of d k = Some v \<Longrightarrow> Suc (weight v) < weight (JDict d)"
  by (induction d) (auto split: if_splits)

lemma weight_children:
  "py_iter (py_or (dict_get d k (JList [])) (JList [])) = Inr chs \<Longrightarrow>
     sum_list (map Suc (map weight chs)) < weight (JDict d)"
proof (cases "map_of d k")
  case None
  assume "py_iter (py_or (dict_get d k (JList [])) (JList [])) = Inr chs"
  with None show ?thesis by (simp add: dict_get_def py_or_def)
next
  case (Some v)
  assume it: "py_iter (py_or (dict_get d k (JList [])) (JList [])) = Inr chs"
  have "sum_list (map Suc (map weight chs)) \<le> Suc (weight v)"
  proof (cases v)
    case (JStr s)
    with it Some have "chs = map (\<lambda>c. JStr [c]) s"
      by (auto simp add: dict_get_def py_or_def split: if_splits)
    then show ?thesis
      by (cases s) (simp_all add: JStr comp_def sum_list_triv)
  next
    case (JList xs)
    with it Some show ?thesis
      by (auto simp add: dict_get_def py_or_def split: if_splits)
  next
    case (JDict dd)
    with it Some have chs: "chs = map (\<lambda>kv. JStr (fst kv)) dd"
      by (auto simp add: dict_get_def py_or_def split: if_splits)
    have "sum_list (map Suc (map weight (map (\<lambda>kv. JStr (fst kv)) dd))) \<le> weight (JDict dd)"
      by (induction dd) auto
    with chs JDict show ?thesis by simp
  qed (use it Some in \<open>auto simp add: dict_get_def py_or_def split: if_splits\<close>)
  with weight_map_of [OF Some] show ?thesis by simp
qed

text \<open>
  The inner function \<^verbatim>\<open>walk\<close>: a dict whose name is the target returns
  \<^verbatim>\<open>int(nodes["id"])\<close>, any other dict is searched through
  \<^verbatim>\<open>nodes.get("children", []) or []\<close>, a list through its elements, and anything else
  gives \<^verbatim>\<open>None\<close>. \<open>walk_all\<close> is either \<^verbatim>\<open>for\<close> loop, left at the first result that is
  not \<^verbatim>\<open>None\<close>.
\<close>

function walk :: "json \<Rightarrow> error + int option"
  and walk_all :: "json list \<Rightarrow> error + int option" where
  "walk (JDict d) =
     (if dict_get d (u ''name'') JNull = JStr Kofe
      then (case map_of d (u ''id'') of
              None \<Rightarrow> Inl KeyError
            | Some v \<Rightarrow> (case py_int v of Inl e \<Rightarrow> Inl e | Inr n \<Rightarrow> Inr (Some n)))
      else (case py_iter (py_or (dict_get d (u ''children'') (JList [])) (JList [])) of
              Inl e \<Rightarrow> Inl e
            | Inr chs \<Rightarrow> walk_all chs))"
| "walk (JList ns) = walk_all ns"
| "walk JNull = Inr None"
| "walk (JBool b) = Inr None"
| "walk (JInt n) = Inr None"
| "walk (JFloat r) = Inr None"
| "walk (JStr s) = Inr None"
| "walk_all [] = Inr None"
| "walk_all (n # ns) =
     (case walk n of
        Inl e \<Rightarrow> Inl e
      | Inr (Some found) \<Rightarrow> Inr (Some found)
      | Inr None \<Rightarrow> walk_all ns)"
  by pat_completeness auto
termination
proof (relation "measure (\<lambda>x. case x of Inl v \<Rightarrow> weight v
                                        | Inr ns \<Rightarrow> sum_list (map Suc (map weight ns)))")
  show "wf (measure (\<lambda>x. case x of Inl v \<Rightarrow> weight v
                                       | Inr ns \<Rightarrow> sum_list (map Suc (map weight ns))))"
    by simp
next
  fix d chs
  assume "py_iter (py_or (dict_get d (u ''children'') (JList [])) (JList [])) = Inr chs"
  then have "sum_list (map Suc (map weight chs)) < weight (JDict d)"
    by (rule weight_children)
  then show "(Inr chs, Inl (JDict d))
      \<in> measure (\<lambda>x. case x of Inl v \<Rightarrow> weight v
                                | Inr ns \<Rightarrow> sum_list (map Suc (map weight ns)))"
    by simp
qed simp_all

text \<open>
  \<^verbatim>\<open>get_coffee_category_id\<close>, from the reply to its request on:
  \<^verbatim>\<open>cid = walk(data.get("items", []))\<close>, and the error when it is \<^verbatim>\<open>None\<close>.
\<close>

definition get_coffee_category_id :: "reply \<Rightarrow> error + int" where
  "get_coffee_category_id rp =
     (case rp of
        Raises e \<Rightarrow> Inl e
      | Body data \<Rightarrow>
          (case data of
             JDict d \<Rightarrow>
               (case walk (dict_get d (u ''items'') (JList [])) of
                  Inl e \<Rightarrow> Inl e
                | Inr None \<Rightarrow> Inl (RuntimeError NoCoffeeCategory)
                | Inr (Some cid) \<Rightarrow> Inr cid)
           | _ \<Rightarrow> Inl AttributeError))"

text \<open>
  The words of the specification. The nodes of a category tree, depth first: a dict is a
  node, followed by the nodes of its children when they are a list; a list holds the nodes
  of its elements; anything else holds none.
\<close>

function tree_nodes :: "json \<Rightarrow> json list"
  and forest_nodes :: "json list \<Rightarrow> json list" where
  "tree_nodes (JDict d) =
     JDict d # (case dict_get d (u ''children'') JNull of
                  JList chs \<Rightarrow> forest_nodes chs
                | _ \<Rightarrow> [])"
| "tree_nodes (JList ns) = forest_nodes ns"
| "tree_nodes JNull = []"
| "tree_nodes (JBool b) = []"
| "tree_nodes (JInt n) = []"
| "tree_nodes (JFloat r) = []"
| "tree_nodes (JStr s) = []"
| "forest_nodes [] = []"
| "forest_nodes (n # ns) = tree_nodes n @ forest_nodes ns"
  by pat_completeness auto
termination
proof (relation "measure (\<lambda>x. case x of Inl v \<Rightarrow> weight v
                                        | Inr ns \<Rightarrow> sum_list (map Suc (map weight ns)))")
  show "wf (measure (\<lambda>x. case x of Inl v \<Rightarrow> weight v
                                       | Inr ns \<Rightarrow> sum_list (map Suc (map weight ns))))"
    by simp
next
  fix d chs
  assume "dict_get d (u ''children'') JNull = JList chs"
  then have "map_of d (u ''children'') = Some (JList chs)"
    by (simp add: dict_get_def split: option.splits)
  from weight_map_of [OF this]
  show "(Inr chs, Inl (JDict d))
      \<in> measure (\<lambda>x. case x of Inl v \<Rightarrow> weight v
                                | Inr ns \<Rightarrow> sum_list (map Suc (map weight ns)))"
    by simp
qed simp_all

text \<open>A node whose name is exactly the target, and the identifier of a node.\<close>

definition is_target :: "json \<Rightarrow> bool" where
  "is_target n = (case n of JDict d \<Rightarrow> dict_get d (u ''name'') JNull = JStr Kofe | _ \<Rightarrow> False)"

definition node_id :: "json \<Rightarrow> error + int option" where
  "node_id n =
     (case n of
        JDict d \<Rightarrow>
          (case map_of d (u ''id'') of
             None \<Rightarrow> Inl KeyError
           | Some v \<Rightarrow> (case py_int v of Inl e \<Rightarrow> Inl e | Inr i \<Rightarrow> Inr (Some i)))
      | _ \<Rightarrow> Inr None)"

definition first_target_id :: "json list \<Rightarrow> error + int option" where
  "first_target_id nodes =
     (case find is_target nodes of None \<Rightarrow> Inr None | Some n \<Rightarrow> node_id n)"

text \<open>
  A tree of dict and list nodes: the children field of each node, when it is there and is
  not empty, is something a \<^verbatim>\<open>for\<close> loop accepts (a list; a string or a dict are
  accepted too and hold no node).
\<close>

definition children_iterable :: "json \<Rightarrow> bool" where
  "children_iterable n =
     (case n of
        JDict d \<Rightarrow>
          (case py_iter (py_or (dict_get d (u ''children'') (JList [])) (JList [])) of
             Inl e \<Rightarrow> False
           | Inr chs \<Rightarrow> True)
      | _ \<Rightarrow> True)"

definition well_formed :: "json \<Rightarrow> bool" where
  "well_formed t = list_all children_iterable (tree_nodes t)"

text \<open>A category node with a name, an identifier and children, and one without children.\<close>

definition category :: "ustring \<Rightarrow> int \<Rightarrow> json list \<Rightarrow> json" where
  "category nm i chs = JDict [(u ''id'', JInt i), (u ''name'', JStr nm), (u ''children'', JList chs)]"

definition leaf :: "ustring \<Rightarrow> int \<Rightarrow> json" where
  "leaf nm i = JDict [(u ''id'', JInt i), (u ''name'', JStr nm)]"

section \<open>The CSV writer\<close>

text \<open>
  \<^verbatim>\<open>f"{x:.2f}"\<close>: the sign, the integer digits, a point and two digits of the value
  rounded to hundredths, ties to even; a negative value keeps its sign when it rounds to
  zero.
\<close>

definition fmt2 :: "rat \<Rightarrow> ustring" where
  "fmt2 x =
     (let n = nat \<bar>round_half_even (x * 100)\<bar>
      in (if x < 0 then [45] else []) @ show_nat (n div 100) @
         [46, 48 + n mod 100 div 10, 48 + n mod 10])"

text \<open>\<^verbatim>\<open>"" if price is None else f"{price:.2f}"\<close>.\<close>

definition price_field :: "rat option \<Rightarrow> ustring" where
  "price_field p = (case p of None \<Rightarrow> [] | Some x \<Rightarrow> fmt2 x)"

text \<open>
  \<^verbatim>\<open>csv.writer(f, delimiter=";")\<close> with the other settings of the default dialect: a
  field that holds the delimiter, the quote character, a carriage return or a line feed is
  put between double quotes, with each double quote in it doubled; the fields are joined
  with semicolons and the row is ended by carriage return and line feed. (A row of the
  script has six fields; the one special case of the library, a row of one empty field, does
  not arise.)
\<close>

definition needs_quotes :: "ustring \<Rightarrow> bool" where
  "needs_quotes f = list_ex (\<lambda>c. c = 59 \<or> c = 34 \<or> c = 13 \<or> c = 10) f"

definition csv_field :: "ustring \<Rightarrow> ustring" where
  "csv_field f =
     (if needs_quotes f
      then 34 # concat (map (\<lambda>c. if c = 34 then [34, 34] else [c]) f) @ [34]
      else f)"

fun join :: "ustring \<Rightarrow> ustring list \<Rightarrow> ustring" where
  "join sep [] = []"
| "join sep [x] = x"
| "join sep (x # y # ys) = x @ sep @ join sep (y # ys)"

definition csv_line :: "ustring list \<Rightarrow> ustring" where
  "csv_line fs = join [59] (map csv_field fs)"

definition writerow :: "ustring list \<Rightarrow> ustring" where
  "writerow fs = csv_line fs @ [13, 10]"

text \<open>The text that \<^verbatim>\<open>write_csv\<close> writes: the header row, and a row for each record.\<close>

definition header :: "ustring list" where
  "header = [u ''id'', u ''name'', u ''regular_price'', u ''promo_price'', u ''brand'', u ''city'']"

definition row_fields :: "ProductRow \<Rightarrow> ustring list" where
  "row_fields r =
     [product_id r, name r, price_field (regular_price r), price_field (promo_price r),
      brand r, city r]"

definition csv_text :: "ProductRow list \<Rightarrow> ustring" where
  "csv_text rows = writerow header @ concat (map (\<lambda>r. writerow (row_fields r)) rows)"

text \<open>
  The encoding \<^verbatim>\<open>utf-8-sig\<close>: the bytes EF BB BF, then the UTF-8 bytes of each character.
  A surrogate (U+D800 to U+DFFF, which a JSON escape can put into a string) cannot be
  encoded. A number from 1114112 on is no code point.
\<close>

definition utf8_char :: "nat \<Rightarrow> error + nat list" where
  "utf8_char c =
     (if c < 128 then Inr [c]
      else if c < 2048 then Inr [192 + c div 64, 128 + c mod 64]
      else if c < 65536 then
        (if 55296 \<le> c \<and> c \<le> 57343 then Inl UnicodeEncodeError
         else Inr [224 + c div 4096, 128 + c div 64 mod 64, 128 + c mod 64])
      else if c < 1114112 then
        Inr [240 + c div 262144, 128 + c div 4096 mod 64, 128 + c div 64 mod 64, 128 + c mod 64]
      else Inl Unmodelled)"

fun utf8_encode :: "ustring \<Rightarrow> error + nat list" where
  "utf8_encode [] = Inr []"
| "utf8_encode (c # cs) =
     (case utf8_char c of
        Inl e \<Rightarrow> Inl e
      | Inr bs \<Rightarrow> (case utf8_encode cs of Inl e \<Rightarrow> Inl e | Inr rest \<Rightarrow> Inr (bs @ rest)))"

text \<open>
  \<^verbatim>\<open>write_csv\<close>: the bytes of the file at \<^verbatim>\<open>out_path\<close> when the call returns, or the
  exception it raises.
\<close>

definition write_csv :: "ProductRow list \<Rightarrow> error + nat list" where
  "write_csv rows =
     (case utf8_encode (csv_text rows) of
        Inl e \<Rightarrow> Inl e
      | Inr bytes \<Rightarrow> Inr ([239, 187, 191] @ bytes))"

text \<open>
  Reading a text back line by line, as a file opened in text mode does: a line ends at a
  line feed, at a carriage return, or at a carriage return followed by a line feed. The
  first argument is the line being read, reversed.
\<close>

fun lines_from :: "ustring \<Rightarrow> ustring \<Rightarrow> ustring list" where
  "lines_from cur [] = (if cur = [] then [] else [rev cur])"
| "lines_from cur [c] =
     (if c = 10 \<or> c = 13 then [rev cur] else [rev (c # cur)])"
| "lines_from cur (c # c' # cs) =
     (if c = 13 \<and> c' = 10 then rev cur # lines_from [] cs
      else if c = 10 \<or> c = 13 then rev cur # lines_from [] (c' # cs)
      else lines_from (c # cur) (c' # cs))"

definition read_lines :: "ustring \<Rightarrow> ustring list" where
  "read_lines s = lines_from [] s"

text \<open>
  Reading a line back field by field, as \<^verbatim>\<open>csv.reader(f, delimiter=";")\<close> does with
  the other settings of the default dialect: a double quote at the start of a field opens a
  quoted field, in which a semicolon is a character of the field and two double quotes
  stand for one; a semicolon elsewhere ends the field. The second argument is the field
  being read. (The line is not empty: a line of a row of six fields holds five semicolons.)
\<close>

datatype reader_state = StartField | InField | InQuotedField | QuoteInQuotedField

fun read_from :: "reader_state \<Rightarrow> ustring \<Rightarrow> ustring \<Rightarrow> ustring list" where
  "read_from st cur [] = [cur]"
| "read_from StartField cur (c # cs) =
     (if c = 34 then read_from InQuotedField cur cs
      else if c = 59 then cur # read_from StartField [] cs
      else read_from InField (cur @ [c]) cs)"
| "read_from InField cur (c # cs) =
     (if c = 59 then cur # read_from StartField [] cs
      else read_from InField (cur @ [c]) cs)"
| "read_from InQuotedField cur (c # cs) =
     (if c = 34 then read_from QuoteInQuotedField cur cs
      else read_from InQuotedField (cur @ [c]) cs)"
| "read_from QuoteInQuotedField cur (c # cs) =
     (if c = 34 then read_from InQuotedField (cur @ [34]) cs
      else if c = 59 then cur # read_from StartField [] cs
      else read_from InField (cur @ [c]) cs)"

definition read_fields :: "ustring \<Rightarrow> ustring list" where
  "read_fields line = read_from StartField [] line"

text \<open>What the reader returns once a field is complete and \<open>rest\<close> is left of the line.\<close>

definition after_field :: "ustring \<Rightarrow> ustring \<Rightarrow> ustring list" where
  "after_field cur rest =
     (case rest of [] \<Rightarrow> [cur] | c # cs \<Rightarrow> cur # read_from StartField [] cs)"

text \<open>A record whose text fields hold no line break, and a text that UTF-8 can encode.\<close>

definition no_line_break :: "ustring \<Rightarrow> bool" where
  "no_line_break f = list_all (\<lambda>c. c \<noteq> 10 \<and> c \<noteq> 13) f"

definition single_line :: "ProductRow \<Rightarrow> bool" where
  "single_line r =
     (no_line_break (product_id r) \<and> no_line_break (name r) \<and> no_line_break (brand r) \<and>
      no_line_break (city r))"

definition encodable :: "ustring \<Rightarrow> bool" where
  "encodable s = list_all (\<lambda>c. c < 1114112 \<and> \<not> (55296 \<le> c \<and> c \<le> 57343)) s"

section \<open>The run\<close>

text \<open>
  The parsed command line: the values \<^verbatim>\<open>args.token\<close>, \<^verbatim>\<open>args.device_id\<close>,
  \<^verbatim>\<open>args.app_version\<close>, \<^verbatim>\<open>args.user_agent\<close>, \<^verbatim>\<open>args.city\<close>, \<^verbatim>\<open>args.fias_id\<close>,
  \<^verbatim>\<open>args.out\<close> and \<^verbatim>\<open>args.limit\<close>. The options without a default may be absent.
\<close>

record args =
  arg_token :: "ustring option"
  arg_device_id :: "ustring option"
  arg_app_version :: ustring
  arg_user_agent :: ustring
  arg_city :: "ustring option"
  arg_fias_id :: "ustring option"
  arg_out :: ustring
  arg_limit :: int

text \<open>
  The upstream service during one run: the city-info endpoint, the reply of the category
  endpoint, and the replies of the search endpoint in the order of the requests.
\<close>

record world =
  w_city_info :: "ustring \<Rightarrow> reply"
  w_categories :: reply
  w_pages :: "reply list"

text \<open>
  What a run does: how it ends (\<open>None\<close> while it waits for a page; an exception or the exit
  code otherwise), and the calls of \<^verbatim>\<open>write_csv\<close> it has made, each with its rows and
  its path. (The lines printed are left out. \<^verbatim>\<open>make_session\<close> only builds the headers
  and cannot fail.)
\<close>

record run =
  exit_code :: "(error + int) option"
  csv_calls :: "(ProductRow list \<times> ustring) list"

text \<open>The body of the loop of \<^verbatim>\<open>main\<close>: \<^verbatim>\<open>rows.append(to_row(it, city_name))\<close>.\<close>

definition append_row :: "ustring \<Rightarrow> ProductRow list \<Rightarrow> json \<Rightarrow> error + ProductRow list" where
  "append_row city_name rows it =
     (case to_row it city_name of Inl e \<Rightarrow> Inl e | Inr r \<Rightarrow> Inr (rows @ [r]))"

definition absent :: "ustring option \<Rightarrow> bool" where
  "absent v = (v = None \<or> v = Some [])"

definition main :: "args \<Rightarrow> world \<Rightarrow> run" where
  "main a w =
     (if absent (arg_token a) \<or> absent (arg_device_id a)
      then \<lparr>exit_code = Some (Inr 2), csv_calls = []\<rparr>
      else
        (case resolve_city (w_city_info w) (arg_city a) (arg_fias_id a) of
           Inl e \<Rightarrow> \<lparr>exit_code = Some (Inl e), csv_calls = []\<rparr>
         | Inr (city_id, city_name, fias) \<Rightarrow>
             (case get_coffee_category_id (w_categories w) of
                Inl e \<Rightarrow> \<lparr>exit_code = Some (Inl e), csv_calls = []\<rparr>
              | Inr coffee_category_id \<Rightarrow>
                  (case fst (page_loop (append_row city_name) coffee_category_id city_id
                               (arg_limit a) (w_pages w) 0 (JStr []) []) of
                     None \<Rightarrow> \<lparr>exit_code = None, csv_calls = []\<rparr>
                   | Some (Inl e) \<Rightarrow> \<lparr>exit_code = Some (Inl e), csv_calls = []\<rparr>
                   | Some (Inr rows) \<Rightarrow>
                       (case write_csv rows of
                          Inl e \<Rightarrow> \<lparr>exit_code = Some (Inl e), csv_calls = [(rows, arg_out a)]\<rparr>
                        | Inr bytes \<Rightarrow>
                            \<lparr>exit_code = Some (Inr 0), csv_calls = [(rows, arg_out a)]\<rparr>)))))"

text \<open>A product of the search endpoint, a category reply, and a command line.\<close>

definition product :: "int \<Rightarrow> ustring \<Rightarrow> int \<Rightarrow> json \<Rightarrow> json" where
  "product i nm p qty =
     JDict [(u ''id'', JInt i), (u ''name'', JStr nm), (u ''price'', JInt p), (u ''quantity'', qty)]"

definition coffee_tree :: reply where
  "coffee_tree = Body (JDict [(u ''items'', JList [category (u ''Drinks'') 1 [leaf Kofe 42]])])"

definition command_line :: "ustring option \<Rightarrow> args" where
  "command_line c =
     \<lparr>arg_token = Some (u ''t''), arg_device_id = Some (u ''d''), arg_app_version = u ''8.90.0'',
      arg_user_agent = u ''okhttp/5.1.0'', arg_city = c, arg_fias_id = None,
      arg_out = u ''coffee.csv'', arg_limit = 20\<rparr>"

section \<open>Properties of the product fetcher\<close>

lemma in_stock_dict:
  "in_stock (JDict d) = Inr (positive_quantity (JDict d))"
proof (cases "map_of d (u ''quantity'')")
  case None
  then show ?thesis
    by (simp add: in_stock_def positive_quantity_def dict_get_def)
next
  case (Some q)
  then show ?thesis
    by (cases q) (auto simp add: in_stock_def positive_quantity_def dict_get_def)
qed

lemma for_items_collect:
  "list_all is_dict its \<Longrightarrow> for_items collect its acc = Inr (acc @ filter positive_quantity its)"
proof (induction its arbitrary: acc)
  case Nil
  then show ?case by simp
next
  case (Cons it its)
  from Cons.prems obtain d where d: "it = JDict d"
    by (cases it) simp_all
  from Cons.prems have rest: "list_all is_dict its" by simp
  show ?case
    using Cons.IH [OF rest]
    by (simp add: d in_stock_dict collect_def)
qed

lemma page_loop_offsets:
  "map req_offset (snd (page_loop f c ci limit rps off tok acc)) =
     map (\<lambda>i. off + int i * limit) [0..<length (snd (page_loop f c ci limit rps off tok acc))]"
proof (induction rps arbitrary: off tok acc)
  case Nil
  then show ?case by simp
next
  case (Cons rp rps)
  show ?case
    using Cons.IH
    by (auto simp add: Let_def map_upt_Suc algebra_simps simp del: upt_Suc
          split: sum.splits prod.splits bool.splits)
qed

lemma page_loop_stops:
  "empty_page e \<Longrightarrow>
     page_loop f c ci limit (pre @ e # rest) off tok acc = page_loop f c ci limit (pre @ [e]) off tok acc"
proof (induction pre arbitrary: off tok acc)
  case Nil
  then show ?case
    by (auto simp add: empty_page_def split: sum.splits prod.splits)
next
  case (Cons rp pre)
  show ?case
    by (simp add: Let_def Cons.IH [OF Cons.prems] split: sum.splits prod.splits)
qed

lemma page_loop_ends:
  "empty_page e \<Longrightarrow>
     fst (page_loop f c ci limit (pre @ [e]) off tok acc) \<noteq> None \<and>
     length (snd (page_loop f c ci limit (pre @ [e]) off tok acc)) \<le> length pre + 1"
proof (induction pre arbitrary: off tok acc)
  case Nil
  then show ?case
    by (auto simp add: empty_page_def split: sum.splits prod.splits)
next
  case (Cons rp pre)
  show ?case
    using Cons.IH [OF Cons.prems]
    by (auto simp add: Let_def split: sum.splits prod.splits)
qed

lemma page_items_step:
  assumes "page_items rp = Some its"
  shows "\<exists>tok'. goods_search_page rp = Inr (JList its, tok')" and "its \<noteq> []" and "list_all is_dict its"
  using assms
  by (auto simp add: page_items_def split: sum.splits prod.splits json.splits if_splits)

lemma page_loop_pages:
  "list_all (\<lambda>rp. page_items rp \<noteq> None) pre \<Longrightarrow> empty_page e \<Longrightarrow>
     fst (page_loop collect c ci limit (pre @ [e]) off tok acc) =
       Some (Inr (acc @ concat (map in_stock_items pre))) \<and>
     length (snd (page_loop collect c ci limit (pre @ [e]) off tok acc)) = length pre + 1"
proof (induction pre arbitrary: off tok acc)
  case Nil
  then show ?case
    by (auto simp add: empty_page_def split: sum.splits prod.splits)
next
  case (Cons rp pre)
  from Cons.prems obtain its where its: "page_items rp = Some its" by auto
  from page_items_step [OF its] obtain tok' where
    g: "goods_search_page rp = Inr (JList its, tok')" and ne: "its \<noteq> []" and d: "list_all is_dict its"
    by blast
  from Cons.prems have rest: "list_all (\<lambda>rp. page_items rp \<noteq> None) pre" by simp
  show ?case
    using Cons.IH [OF rest Cons.prems(2)]
    by (simp add: Let_def g ne for_items_collect [OF d] in_stock_items_def its)
qed

section \<open>Claims about the product fetcher\<close>

text \<open>
  Claim C2. From a page of items the fetcher yields exactly the items whose quantity is a
  positive integer, in order, and drops the others (quantity 0, no quantity field, a
  quantity that is not an integer) without raising: the inner loop returns normally with
  the filtered list, and so does the whole run over that page followed by an empty one.
  Integer is Python's \<^verbatim>\<open>int\<close>, which the boolean \<^verbatim>\<open>true\<close> belongs to with the
  value 1.
\<close>

theorem stock_filter_positive_quantity:
  "page_items rp = Some its \<Longrightarrow> empty_page e \<Longrightarrow>
     for_items collect its acc = Inr (acc @ filter positive_quantity its) \<and>
     fst (iter_coffee_products_in_stock category_id city_id limit (rp # e # rest)) =
       Some (Inr (filter positive_quantity its))"
proof -
  assume its: "page_items rp = Some its" and e: "empty_page e"
  from page_items_step [OF its] have d: "list_all is_dict its" by blast
  have pre: "list_all (\<lambda>rp. page_items rp \<noteq> None) [rp]" by (simp add: its)
  have "fst (page_loop collect category_id city_id limit ([rp] @ [e]) 0 (JStr []) []) =
          Some (Inr ([] @ concat (map in_stock_items [rp])))"
    using page_loop_pages [OF pre e] by blast
  moreover have "page_loop collect category_id city_id limit ([rp] @ e # rest) 0 (JStr []) [] =
      page_loop collect category_id city_id limit ([rp] @ [e]) 0 (JStr []) []"
    by (rule page_loop_stops [OF e])
  ultimately have "fst (iter_coffee_products_in_stock category_id city_id limit (rp # e # rest)) =
       Some (Inr (filter positive_quantity its))"
    by (simp add: iter_coffee_products_in_stock_def in_stock_items_def its)
  with for_items_collect [OF d] show ?thesis by simp
qed

text \<open>
  A page with quantities 1, 0, none, 1.5, the string "7", 12 and null: the first and the
  sixth item are yielded.
\<close>

theorem stock_filter_positive_quantity_witness:
  "page_items (page [item 1 (JInt 1), item 2 (JInt 0), JDict [(u ''id'', JInt 3)],
                     item 4 (JFloat (3 / 2)), item 5 (JStr (u ''7'')), item 6 (JInt 12),
                     item 7 JNull] (u ''t1''))
     = Some [item 1 (JInt 1), item 2 (JInt 0), JDict [(u ''id'', JInt 3)],
             item 4 (JFloat (3 / 2)), item 5 (JStr (u ''7'')), item 6 (JInt 12), item 7 JNull] \<and>
   empty_page (page [] []) \<and>
   fst (iter_coffee_products_in_stock 17 (u ''1'') 20
         [page [item 1 (JInt 1), item 2 (JInt 0), JDict [(u ''id'', JInt 3)],
                item 4 (JFloat (3 / 2)), item 5 (JStr (u ''7'')), item 6 (JInt 12),
                item 7 JNull] (u ''t1''),
          page [] []])
     = Some (Inr [item 1 (JInt 1), item 6 (JInt 12)])"
proof -
  let ?its = "[item 1 (JInt 1), item 2 (JInt 0), JDict [(u ''id'', JInt 3)],
             item 4 (JFloat (3 / 2)), item 5 (JStr (u ''7'')), item 6 (JInt 12), item 7 JNull]"
  have p: "page_items (page ?its (u ''t1'')) = Some ?its"
    by code_simp
  have e: "empty_page (page [] [])"
    by code_simp
  have f: "filter positive_quantity ?its = [item 1 (JInt 1), item 6 (JInt 12)]"
    by code_simp
  from stock_filter_positive_quantity [OF p e, of "[]" 17 "u ''1''" 20 "[]"] p e f
  show ?thesis by simp
qed

text \<open>
  Claim C10. An item whose quantity is the boolean \<^verbatim>\<open>true\<close> passes the in-stock test and is
  yielded; one whose quantity is \<^verbatim>\<open>false\<close> is dropped, as a quantity of zero is.
\<close>

theorem boolean_quantity:
  "map_of d (u ''quantity'') = Some (JBool b) \<Longrightarrow>
     in_stock (JDict d) = Inr b \<and>
     for_items collect [JDict d] acc = Inr (if b then acc @ [JDict d] else acc)"
  by (simp add: in_stock_def dict_get_def collect_def)

text \<open>A run over a page with quantities true, false and 0.\<close>

theorem boolean_quantity_witness:
  "map_of [(u ''id'', JInt 1), (u ''quantity'', JBool True)] (u ''quantity'') = Some (JBool True) \<and>
   map_of [(u ''id'', JInt 2), (u ''quantity'', JBool False)] (u ''quantity'') = Some (JBool False) \<and>
   fst (iter_coffee_products_in_stock 17 (u ''1'') 20
          [page [item 1 (JBool True), item 2 (JBool False), item 3 (JInt 0)] [], page [] []])
     = Some (Inr [item 1 (JBool True)]) \<and>
   in_stock (item 1 (JBool True)) = Inr True \<and>
   in_stock (item 2 (JBool False)) = Inr False \<and>
   in_stock (item 3 (JInt 0)) = Inr False"
proof -
  have t: "map_of [(u ''id'', JInt 1), (u ''quantity'', JBool True)] (u ''quantity'') = Some (JBool True)"
    by code_simp
  have f: "map_of [(u ''id'', JInt 2), (u ''quantity'', JBool False)] (u ''quantity'') = Some (JBool False)"
    by code_simp
  have run: "fst (iter_coffee_products_in_stock 17 (u ''1'') 20
          [page [item 1 (JBool True), item 2 (JBool False), item 3 (JInt 0)] [], page [] []])
     = Some (Inr [item 1 (JBool True)])"
    by code_simp
  have z: "in_stock (item 3 (JInt 0)) = Inr False"
    by code_simp
  from boolean_quantity [OF t, of "[]"] boolean_quantity [OF f, of "[]"] t f run z
  show ?thesis by (simp add: item_def)
qed

text \<open>
  Claim C3. When some page of the reply sequence is empty, the fetcher ends at the first
  one: the run has an outcome, it is the same whatever follows the empty page, and no more
  than one request per page up to and including the empty one is made. The offsets of the
  successive requests are 0, limit, 2 * limit, ... When the pages before the empty one are
  pages of items, the run yields exactly their in-stock items and makes one request per
  page.
\<close>

theorem pagination_stops_at_first_empty_page:
  "empty_page e \<Longrightarrow>
     iter_coffee_products_in_stock category_id city_id limit (pre @ e # rest) =
       iter_coffee_products_in_stock category_id city_id limit (pre @ [e]) \<and>
     fst (iter_coffee_products_in_stock category_id city_id limit (pre @ e # rest)) \<noteq> None \<and>
     length (snd (iter_coffee_products_in_stock category_id city_id limit (pre @ e # rest)))
       \<le> length pre + 1 \<and>
     map req_offset (snd (iter_coffee_products_in_stock category_id city_id limit (pre @ e # rest))) =
       map (\<lambda>i. int i * limit)
         [0..<length (snd (iter_coffee_products_in_stock category_id city_id limit (pre @ e # rest)))] \<and>
     (list_all (\<lambda>rp. page_items rp \<noteq> None) pre \<longrightarrow>
        fst (iter_coffee_products_in_stock category_id city_id limit (pre @ e # rest)) =
          Some (Inr (concat (map in_stock_items pre))) \<and>
        map req_offset (snd (iter_coffee_products_in_stock category_id city_id limit (pre @ e # rest))) =
          map (\<lambda>i. int i * limit) [0..<length pre + 1])"
proof -
  assume e: "empty_page e"
  let ?run = "iter_coffee_products_in_stock category_id city_id limit"
  have stop: "?run (pre @ e # rest) = ?run (pre @ [e])"
    unfolding iter_coffee_products_in_stock_def by (rule page_loop_stops [OF e])
  have ends: "fst (?run (pre @ [e])) \<noteq> None \<and> length (snd (?run (pre @ [e]))) \<le> length pre + 1"
    unfolding iter_coffee_products_in_stock_def by (rule page_loop_ends [OF e])
  have offs: "map req_offset (snd (?run (pre @ [e]))) =
      map (\<lambda>i. int i * limit) [0..<length (snd (?run (pre @ [e])))]"
    unfolding iter_coffee_products_in_stock_def
    using page_loop_offsets [of collect category_id city_id limit "pre @ [e]" 0 "JStr []" "[]"]
    by simp
  have pages: "fst (?run (pre @ [e])) = Some (Inr (concat (map in_stock_items pre))) \<and>
       map req_offset (snd (?run (pre @ [e]))) = map (\<lambda>i. int i * limit) [0..<length pre + 1]"
    if g: "list_all (\<lambda>rp. page_items rp \<noteq> None) pre"
  proof -
    have "fst (?run (pre @ [e])) = Some (Inr ([] @ concat (map in_stock_items pre))) \<and>
       length (snd (?run (pre @ [e]))) = length pre + 1"
      unfolding iter_coffee_products_in_stock_def by (rule page_loop_pages [OF g e])
    with offs show ?thesis by simp
  qed
  from stop ends offs pages show ?thesis by simp
qed

text \<open>
  Pages of 2 items, 2 items and 0 items, followed by a page and a transport failure that
  are never requested.
\<close>

theorem pagination_stops_at_first_empty_page_witness:
  "empty_page (page [] (u ''t3'')) \<and>
   list_all (\<lambda>rp. page_items rp \<noteq> None)
     [page [item 1 (JInt 3), item 2 (JInt 0)] (u ''t1''),
      page [item 3 (JInt 1), item 4 (JInt 5)] (u ''t2'')] \<and>
   fst (iter_coffee_products_in_stock 17 (u ''1'') 20
         ([page [item 1 (JInt 3), item 2 (JInt 0)] (u ''t1''),
           page [item 3 (JInt 1), item 4 (JInt 5)] (u ''t2'')]
          @ page [] (u ''t3'') # [page [item 5 (JInt 9)] (u ''t4''), Raises RequestFailed]))
     = Some (Inr [item 1 (JInt 3), item 3 (JInt 1), item 4 (JInt 5)]) \<and>
   map req_offset (snd (iter_coffee_products_in_stock 17 (u ''1'') 20
         ([page [item 1 (JInt 3), item 2 (JInt 0)] (u ''t1''),
           page [item 3 (JInt 1), item 4 (JInt 5)] (u ''t2'')]
          @ page [] (u ''t3'') # [page [item 5 (JInt 9)] (u ''t4''), Raises RequestFailed])))
     = [0, 20, 40]"
proof -
  let ?pre = "[page [item 1 (JInt 3), item 2 (JInt 0)] (u ''t1''),
      page [item 3 (JInt 1), item 4 (JInt 5)] (u ''t2'')]"
  have e: "empty_page (page [] (u ''t3''))"
    by code_simp
  have g: "list_all (\<lambda>rp. page_items rp \<noteq> None) ?pre"
    by code_simp
  have c: "concat (map in_stock_items ?pre) = [item 1 (JInt 3), item 3 (JInt 1), item 4 (JInt 5)]"
    by code_simp
  have o: "map (\<lambda>i. int i * 20) [0..<length ?pre + 1] = [0, 20, 40]"
    by code_simp
  note t = pagination_stops_at_first_empty_page
         [OF e, of 17 "u ''1''" 20 ?pre "[page [item 5 (JInt 9)] (u ''t4''), Raises RequestFailed]"]
  from t g have r1: "fst (iter_coffee_products_in_stock 17 (u ''1'') 20
         (?pre @ page [] (u ''t3'') # [page [item 5 (JInt 9)] (u ''t4''), Raises RequestFailed]))
     = Some (Inr (concat (map in_stock_items ?pre)))"
    by blast
  from t g have r2: "map req_offset (snd (iter_coffee_products_in_stock 17 (u ''1'') 20
         (?pre @ page [] (u ''t3'') # [page [item 5 (JInt 9)] (u ''t4''), Raises RequestFailed])))
     = map (\<lambda>i. int i * 20) [0..<length ?pre + 1]"
    by blast
  from e g r1 [unfolded c] r2 [unfolded o] show ?thesis
    by (intro conjI)
qed

section \<open>Properties of the brand extraction\<close>

text \<open>The definitions that evaluate \<open>extract_brand_from_name\<close> on a given name.\<close>

lemmas brand_eval =
  extract_brand_from_name_def py_strip_def strip_chars_def is_space_def lower_cp_def py_lower_def
  match_spaces_def re_dollar_def is_sep_def re_split_def re_sub_prefix_def
  kofe_def kofejnyj_def napitok_def kofejnye_def napitki_def skip_def clean_token_def
  latin_upper_def latin_word_def cyrillic_upper_def cyrillic_word_def upper_word_def
  re_capitalised_def re_all_upper_def Let_def

text \<open>
  No piece of \<open>re_split\<close> holds a separator, so no token holds a line feed, and on the
  tokens the three patterns say what \<open>brand_like\<close> says.
\<close>

lemma re_split_from_no_sep:
  "t \<in> set (re_split_from b s) \<Longrightarrow> c \<in> set t \<Longrightarrow> \<not> is_sep c"
proof (induction s arbitrary: b t)
  case Nil
  then show ?case by simp
next
  case (Cons x s)
  show ?case
  proof (cases "is_sep x")
    case True
    with Cons.prems Cons.IH [of t True] show ?thesis
      by (auto split: if_splits)
  next
    case False
    show ?thesis
    proof (cases "re_split_from False s")
      case Nil
      with False Cons.prems show ?thesis by auto
    next
      case split: (Cons t' ts)
      from False Cons.prems(1) split have "t = x # t' \<or> t \<in> set ts" by simp
      then show ?thesis
      proof
        assume t: "t = x # t'"
        with Cons.prems(2) have "c = x \<or> c \<in> set t'" by simp
        then show ?thesis
        proof
          assume "c = x"
          with False show ?thesis by simp
        next
          assume "c \<in> set t'"
          moreover have "t' \<in> set (re_split_from False s)" by (simp add: split)
          ultimately show ?thesis by (rule Cons.IH [rotated])
        qed
      next
        assume "t \<in> set ts"
        then have "t \<in> set (re_split_from False s)" by (simp add: split)
        then show ?thesis using Cons.prems(2) by (rule Cons.IH)
      qed
    qed
  qed
qed

lemma line_feed_is_sep: "is_sep 10"
  by (simp add: is_sep_def is_space_def)

lemma set_strip_chars: "set (strip_chars cs s) \<subseteq> set s"
proof -
  have "set (strip_chars cs s) \<subseteq> set (rev (dropWhile (\<lambda>c. c \<in> set cs) s))"
    unfolding strip_chars_def using set_dropWhileD by fastforce
  also have "\<dots> \<subseteq> set s"
    using set_dropWhileD by fastforce
  finally show ?thesis .
qed

lemma set_py_strip: "set (py_strip s) \<subseteq> set s"
proof -
  have "set (py_strip s) \<subseteq> set (rev (dropWhile is_space s))"
    unfolding py_strip_def using set_dropWhileD by fastforce
  also have "\<dots> \<subseteq> set s"
    using set_dropWhileD by fastforce
  finally show ?thesis .
qed

lemma set_clean_token: "set (clean_token t) \<subseteq> set t"
  using set_strip_chars [of "[40, 41, 91, 93, 123, 125, 34, 39]" "py_strip t"] set_py_strip [of t]
  by (auto simp add: clean_token_def)

lemma re_dollar_dropWhile:
  "10 \<notin> set cs \<Longrightarrow> re_dollar (dropWhile P cs) = list_all P cs"
proof -
  assume nl: "10 \<notin> set cs"
  have "dropWhile P cs \<noteq> [10]"
  proof
    assume "dropWhile P cs = [10]"
    then have "10 \<in> set (dropWhile P cs)" by simp
    then have "10 \<in> set cs" by (rule set_dropWhileD)
    with nl show False by simp
  qed
  then show ?thesis
    by (simp add: re_dollar_def dropWhile_eq_Nil_conv list_all_iff)
qed

lemma takeWhile_all: "list_all P cs \<Longrightarrow> takeWhile P cs = cs"
  by (simp add: list_all_iff)

lemma re_capitalised_iff:
  "10 \<notin> set tt \<Longrightarrow>
     re_capitalised first word tt =
       (case tt of [] \<Rightarrow> False | c # cs \<Rightarrow> cs \<noteq> [] \<and> first c \<and> list_all word cs)"
proof (cases tt)
  case Nil
  then show ?thesis by (simp add: re_capitalised_def)
next
  case (Cons c cs)
  assume "10 \<notin> set tt"
  with Cons have nl: "10 \<notin> set cs" by simp
  show ?thesis
  proof (cases "list_all word cs")
    case True
    then show ?thesis
      by (simp add: Cons re_capitalised_def re_dollar_dropWhile [OF nl] takeWhile_all [OF True] conj_commute)
  next
    case False
    then show ?thesis
      by (simp add: Cons re_capitalised_def re_dollar_dropWhile [OF nl])
  qed
qed

lemma re_all_upper_iff:
  "10 \<notin> set tt \<Longrightarrow> re_all_upper tt = (2 \<le> length tt \<and> list_all upper_word tt)"
proof -
  assume nl: "10 \<notin> set tt"
  show ?thesis
  proof (cases "list_all upper_word tt")
    case True
    then show ?thesis
      by (simp add: re_all_upper_def re_dollar_dropWhile [OF nl] takeWhile_all [OF True])
  next
    case False
    then show ?thesis
      by (simp add: re_all_upper_def re_dollar_dropWhile [OF nl])
  qed
qed

lemma brand_like_iff:
  "10 \<notin> set tt \<Longrightarrow>
     brand_like tt =
       (re_capitalised latin_upper latin_word tt \<or> re_capitalised cyrillic_upper cyrillic_word tt
        \<or> re_all_upper tt)"
  by (cases tt) (auto simp add: brand_like_def re_capitalised_iff re_all_upper_iff)

lemma first_brand_like_find:
  "list_all (\<lambda>t. 10 \<notin> set t) ts \<Longrightarrow>
     first_brand_like ts =
       find brand_like (filter (\<lambda>tt. tt \<noteq> [] \<and> py_lower tt \<notin> set skip) (map clean_token ts))"
proof (induction ts)
  case Nil
  then show ?case by simp
next
  case (Cons t ts)
  from Cons.prems have "10 \<notin> set t" by simp
  with set_clean_token [of t] have nl: "10 \<notin> set (clean_token t)" by auto
  from Cons.prems have "list_all (\<lambda>t. 10 \<notin> set t) ts" by simp
  from Cons.IH [OF this] show ?case
    by (simp add: Let_def brand_like_iff [OF nl])
qed

lemma first_kept_filter:
  "first_kept ts =
     (case filter (\<lambda>tt. tt \<noteq> [] \<and> py_lower tt \<notin> set skip) (map clean_token ts) of
        [] \<Rightarrow> None | tt # rest \<Rightarrow> Some tt)"
  by (induction ts) (simp_all add: Let_def)

lemma re_split_no_line_feed: "list_all (\<lambda>t. 10 \<notin> set t) (re_split s)"
  unfolding list_all_iff re_split_def
  using re_split_from_no_sep line_feed_is_sep by blast

text \<open>
  The regular expressions against the steps of the specification: the prefix pattern
  removes a generic prefix, the non-empty pieces of \<open>re_split\<close> are the tokens, and on a
  token the cleaning of the code removes the wrapping.
\<close>

lemma match_lit_take:
  "match_lit w s =
     (if length w \<le> length s \<and> py_lower (take (length w) s) = w
      then Some (drop (length w) s) else None)"
  by (induction w s rule: match_lit.induct) (auto simp add: py_lower_def)

lemma match_word:
  "Option.bind (match_lit w s) match_spaces =
     (if starts_with_word w s then Some (after_word w s) else None)"
proof (cases "length w < length s")
  case True
  then have "drop (length w) s = s ! length w # drop (Suc (length w)) s"
    by (simp add: Cons_nth_drop_Suc)
  with True show ?thesis
    by (simp add: match_lit_take starts_with_word_def after_word_def match_spaces_def)
next
  case False
  then show ?thesis
    by (simp add: match_lit_take starts_with_word_def match_spaces_def)
qed

lemma re_sub_prefix_spec: "re_sub_prefix s = without_generic_prefix s"
  by (simp add: re_sub_prefix_def without_generic_prefix_def generic_prefixes_def
      List.map_filter_simps match_word kofe_def kofejnyj_def napitok_def kofejnye_def napitki_def
      split: option.splits)

lemma re_split_from_flag:
  "filter (\<lambda>t. t \<noteq> []) (re_split_from True s) = filter (\<lambda>t. t \<noteq> []) (re_split_from False s)"
  by (cases s) simp_all

lemma re_split_from_not_Nil: "re_split_from b s \<noteq> []"
  by (induction s arbitrary: b) (auto split: list.splits)

lemma tokens_from_re_split:
  "tokens_from w s =
     filter (\<lambda>t. t \<noteq> [])
       ((w @ hd (re_split_from False s)) # tl (re_split_from False s))"
proof (induction s arbitrary: w)
  case Nil
  then show ?case by simp
next
  case (Cons c cs)
  show ?case
  proof (cases "is_sep c")
    case True
    have "tokens_from [] cs = filter (\<lambda>t. t \<noteq> []) (re_split_from False cs)"
      using Cons.IH [of "[]"] re_split_from_not_Nil [of False cs]
      by (cases "re_split_from False cs") simp_all
    with True show ?thesis
      by (simp add: is_sep_def re_split_from_flag)
  next
    case False
    obtain t ts where s: "re_split_from False cs = t # ts"
      using re_split_from_not_Nil [of False cs] by (cases "re_split_from False cs") auto
    from False Cons.IH [of "w @ [c]"] show ?thesis
      by (simp add: is_sep_def s)
  qed
qed

lemma tokens_of_re_split: "tokens_of s = filter (\<lambda>t. t \<noteq> []) (re_split s)"
  using tokens_from_re_split [of "[]" s] re_split_from_not_Nil [of False s]
  unfolding tokens_of_def re_split_def
  by (cases "re_split_from False s") simp_all

lemma dropWhile_none: "\<forall>c \<in> set s. \<not> P c \<Longrightarrow> dropWhile P s = s"
  by (cases s) simp_all

lemma py_strip_no_space: "\<forall>c \<in> set t. \<not> is_space c \<Longrightarrow> py_strip t = t"
  by (simp add: py_strip_def dropWhile_none)

lemma is_wrapper_fun:
  "is_wrapper =
     (\<lambda>c. c = 40 \<or> c = 41 \<or> c = 91 \<or> c = 93 \<or> c = 123 \<or> c = 125 \<or> c = 34 \<or> c = 39)"
  by (simp add: fun_eq_iff is_wrapper_def)

lemma clean_token_spec: "\<forall>c \<in> set t. \<not> is_space c \<Longrightarrow> clean_token t = bare_token t"
  by (simp add: clean_token_def bare_token_def strip_chars_def py_strip_no_space is_wrapper_fun
      conj_commute)

lemma skip_stop_words: "skip = stop_words"
  by (simp add: skip_def stop_words_def)

lemma clean_token_Nil: "clean_token [] = []"
  by (simp add: clean_token_def strip_chars_def py_strip_def)

lemma remaining_tokens_code:
  "filter (\<lambda>tt. tt \<noteq> [] \<and> py_lower tt \<notin> set skip)
     (map clean_token (re_split (re_sub_prefix (py_strip nm)))) = remaining_tokens nm"
proof -
  let ?ts = "re_split (re_sub_prefix (py_strip nm))"
  let ?keep = "\<lambda>tt. tt \<noteq> [] \<and> py_lower tt \<notin> set skip"
  have a: "filter ?keep (map clean_token ts)
             = filter ?keep (map clean_token (filter (\<lambda>t. t \<noteq> []) ts))" for ts
    by (induction ts) (simp_all add: clean_token_Nil)
  have b: "map clean_token (filter (\<lambda>t. t \<noteq> []) ?ts) = map bare_token (filter (\<lambda>t. t \<noteq> []) ?ts)"
  proof (rule map_cong [OF refl])
    fix t assume "t \<in> set (filter (\<lambda>t. t \<noteq> []) ?ts)"
    then have "t \<in> set (re_split_from False (re_sub_prefix (py_strip nm)))"
      by (simp add: re_split_def)
    then have "\<forall>c \<in> set t. \<not> is_space c"
      using re_split_from_no_sep is_sep_def by blast
    then show "clean_token t = bare_token t" by (rule clean_token_spec)
  qed
  show ?thesis
    unfolding remaining_tokens_def tokens_of_re_split re_sub_prefix_spec [symmetric]
      stop_listed_def skip_stop_words [symmetric]
    by (subst a) (simp only: b)
qed

lemma extract_brand_refines:
  "extract_brand_from_name nm = brand_of_tokens (remaining_tokens nm)"
proof -
  let ?ts = "re_split (re_sub_prefix (py_strip nm))"
  let ?toks = "filter (\<lambda>tt. tt \<noteq> [] \<and> py_lower tt \<notin> set skip) (map clean_token ?ts)"
  have a: "first_brand_like ?ts = find brand_like ?toks"
    by (rule first_brand_like_find [OF re_split_no_line_feed])
  have b: "first_kept ?ts = (case ?toks of [] \<Rightarrow> None | tt # rest \<Rightarrow> Some tt)"
    by (rule first_kept_filter)
  have c: "?ts = [] \<Longrightarrow> ?toks = []" by simp
  have "extract_brand_from_name nm = brand_of_tokens ?toks"
    unfolding extract_brand_from_name_def brand_of_tokens_def Let_def a b
    using c by (auto split: option.splits list.splits)
  then show ?thesis by (simp only: remaining_tokens_code)
qed

text \<open>The brand is never a stop word.\<close>

lemma brand_never_stop_listed:
  "py_lower (brand_of_tokens (remaining_tokens nm)) \<notin> set stop_words"
proof (cases "find brand_like (remaining_tokens nm)")
  case None
  show ?thesis
  proof (cases "remaining_tokens nm")
    case Nil
    with None show ?thesis
      by (simp add: brand_of_tokens_def py_lower_def stop_words_def)
  next
    case (Cons tt rest)
    then have "tt \<in> set (remaining_tokens nm)" by simp
    then have "\<not> stop_listed tt" by (simp add: remaining_tokens_def)
    with None Cons show ?thesis
      by (simp add: brand_of_tokens_def stop_listed_def)
  qed
next
  case (Some tt)
  then have "tt \<in> set (remaining_tokens nm)"
    by (auto simp add: find_Some_iff)
  then have "\<not> stop_listed tt" by (simp add: remaining_tokens_def)
  with Some show ?thesis
    by (simp add: brand_of_tokens_def stop_listed_def)
qed

section \<open>Claim about the brand extraction\<close>

text \<open>
  Claim C7. The brand is found as the specification describes: the name is trimmed and its
  generic prefix removed, the rest is cut into tokens at white space and commas, each token
  loses its wrapping, the empty and the stop-listed ones are left out, and the result is
  the first brand-like token of what remains, or else the first remaining token, or else
  the empty string; so the brand is never a stop word. Each word of the stop list is passed
  over, in lower case before the lower-case word "zhokej" and capitalised before "Jardin".
  The examples, with the Russian words in Cyrillic:
  "Kofe Jardin rastvorimyj 95g" gives "Jardin";
  "nekofejnyj produkt", without a stop-listed or capitalised token, gives its first token;
  the empty name gives the empty brand;
  in "Kofe rastvorimyj <<Zhokej>>" the angle quotation marks are removed;
  "Kofemolka Bosch" keeps its first word, because no white space follows "Kofe";
  in "Kofe Molotyj Jardin" the capitalised stop word is passed over;
  "kofe rastvorimyj zhokej v kapsulah", without a brand-like token, gives "zhokej";
  "Kofejnyj napitok Nescafe 3v1" and "KOFEJNYE  NAPITKI MacCoffee" lose the long prefixes;
  "Kofe molotyj,Lavazza,250 g" is cut at the commas;
  "kofe 3IN1 krepkij" gives the token of capitals and digits;
  "Kofe molotyj", where no token remains, gives the empty brand;
  "Kofe (molotyj) [Jardin]" and "Kofe {"Lavazza"} 'Oro'" lose the brackets and quotes;
  and white space around the name is ignored.
\<close>

theorem brand_extraction:
  "extract_brand_from_name nm = brand_of_tokens (remaining_tokens nm) \<and>
   py_lower (extract_brand_from_name nm) \<notin> set stop_words \<and>
   list_all
     (\<lambda>w. extract_brand_from_name (w @ [32, 1078, 1086, 1082, 1077, 1081])
             = [1078, 1086, 1082, 1077, 1081] \<and>
          extract_brand_from_name (((hd w - 32) # tl w) @ [32, 74, 97, 114, 100, 105, 110])
             = u ''Jardin'')
     stop_words \<and>
   extract_brand_from_name
     [1050, 1086, 1092, 1077, 32, 74, 97, 114, 100, 105, 110, 32, 1088, 1072, 1089, 1090, 1074,
      1086, 1088, 1080, 1084, 1099, 1081, 32, 57, 53, 1075] = u ''Jardin'' \<and>
   extract_brand_from_name
     [1085, 1077, 1082, 1086, 1092, 1077, 1081, 1085, 1099, 1081, 32, 1087, 1088, 1086, 1076,
      1091, 1082, 1090] = [1085, 1077, 1082, 1086, 1092, 1077, 1081, 1085, 1099, 1081] \<and>
   extract_brand_from_name [] = [] \<and>
   extract_brand_from_name
     [1050, 1086, 1092, 1077, 32, 1088, 1072, 1089, 1090, 1074, 1086, 1088, 1080, 1084, 1099,
      1081, 32, 171, 1046, 1086, 1082, 1077, 1081, 187] = [1046, 1086, 1082, 1077, 1081] \<and>
   extract_brand_from_name
     [1050, 1086, 1092, 1077, 1084, 1086, 1083, 1082, 1072, 32, 66, 111, 115, 99, 104]
     = [1050, 1086, 1092, 1077, 1084, 1086, 1083, 1082, 1072] \<and>
   extract_brand_from_name
     [1050, 1086, 1092, 1077, 32, 1052, 1086, 1083, 1086, 1090, 1099, 1081, 32, 74, 97, 114,
      100, 105, 110] = u ''Jardin'' \<and>
   extract_brand_from_name
     [1082, 1086, 1092, 1077, 32, 1088, 1072, 1089, 1090, 1074, 1086, 1088, 1080, 1084, 1099,
      1081, 32, 1078, 1086, 1082, 1077, 1081, 32, 1074, 32, 1082, 1072, 1087, 1089, 1091, 1083,
      1072, 1093] = [1078, 1086, 1082, 1077, 1081] \<and>
   extract_brand_from_name
     [1050, 1086, 1092, 1077, 1081, 1085, 1099, 1081, 32, 1085, 1072, 1087, 1080, 1090, 1086,
      1082, 32, 78, 101, 115, 99, 97, 102, 101, 32, 51, 1074, 49] = u ''Nescafe'' \<and>
   extract_brand_from_name
     [1050, 1054, 1060, 1045, 1049, 1053, 1067, 1045, 32, 32, 1053, 1040, 1055, 1048, 1058,
      1050, 1048, 32, 77, 97, 99, 67, 111, 102, 102, 101, 101] = u ''MacCoffee'' \<and>
   extract_brand_from_name
     [1050, 1086, 1092, 1077, 32, 1084, 1086, 1083, 1086, 1090, 1099, 1081, 44, 76, 97, 118,
      97, 122, 122, 97, 44, 50, 53, 48, 32, 1075] = u ''Lavazza'' \<and>
   extract_brand_from_name
     [1082, 1086, 1092, 1077, 32, 51, 73, 78, 49, 32, 1082, 1088, 1077, 1087, 1082, 1080, 1081]
     = u ''3IN1'' \<and>
   extract_brand_from_name
     [1050, 1086, 1092, 1077, 32, 1084, 1086, 1083, 1086, 1090, 1099, 1081] = [] \<and>
   extract_brand_from_name
     [1050, 1086, 1092, 1077, 32, 40, 1084, 1086, 1083, 1086, 1090, 1099, 1081, 41, 32, 91, 74,
      97, 114, 100, 105, 110, 93] = u ''Jardin'' \<and>
   extract_brand_from_name
     [1050, 1086, 1092, 1077, 32, 123, 34, 76, 97, 118, 97, 122, 122, 97, 34, 125, 32, 39, 79,
      114, 111, 39] = u ''Lavazza'' \<and>
   extract_brand_from_name
     [32, 32, 1050, 1086, 1092, 1077, 32, 74, 97, 114, 100, 105, 110, 32, 10] = u ''Jardin''"
proof (intro conjI)
  show "extract_brand_from_name nm = brand_of_tokens (remaining_tokens nm)"
    by (rule extract_brand_refines)
  show "py_lower (extract_brand_from_name nm) \<notin> set stop_words"
    unfolding extract_brand_refines by (rule brand_never_stop_listed)
  show "list_all
     (\<lambda>w. extract_brand_from_name (w @ [32, 1078, 1086, 1082, 1077, 1081])
             = [1078, 1086, 1082, 1077, 1081] \<and>
          extract_brand_from_name (((hd w - 32) # tl w) @ [32, 74, 97, 114, 100, 105, 110])
             = u ''Jardin'')
     stop_words"
    by (simp add: stop_words_def brand_eval u_def)
qed (simp_all add: brand_eval u_def)

section \<open>Properties of the row transformer\<close>

lemma round_half_even_int [simp]: "round_half_even (of_int n) = n"
  by (simp add: round_half_even_def Let_def)

lemma py_round2_hundredths [simp]: "py_round2 (of_int n / 100) = of_int n / 100"
  by (simp add: py_round2_def)

lemma money_from_int_int:
  "money_from_int (JInt n) =
     (if float_overflow n then Inl OverflowError
      else if float_exact n then Inr (Some (of_int n / 100))
      else Inl Unmodelled)"
  by (simp add: money_from_int_def)

lemma float_exact_no_overflow: "float_exact n \<Longrightarrow> \<not> float_overflow n"
proof -
  assume "float_exact n"
  then have "\<bar>n\<bar> < 2 ^ 52" by (simp add: float_exact_def)
  also have "(2::int) ^ 52 \<le> 2 ^ 1024 - 2 ^ 970" by simp
  finally show ?thesis by (simp add: float_overflow_def)
qed

lemma money_from_int_hundredths:
  assumes "money_from_int v = Inr (Some x)"
  shows "\<exists>k::int. x = of_int k / 100"
proof (cases v)
  case (JInt n)
  with assms have "x = of_int n / 100"
    by (simp add: money_from_int_def split: if_splits)
  then show ?thesis by blast
next
  case (JBool b)
  with assms have "x = of_int (if b then 1 else 0) / 100"
    by (simp add: money_from_int_def split: if_splits)
  then show ?thesis by blast
qed (use assms in \<open>simp_all add: money_from_int_def\<close>)

lemma money_from_int_plain:
  "(case v of JNull \<Rightarrow> True | JInt n \<Rightarrow> float_exact n | JBool b \<Rightarrow> True | _ \<Rightarrow> False)
     \<Longrightarrow> \<exists>p. money_from_int v = Inr p"
  by (cases v) (simp_all add: money_from_int_def float_exact_no_overflow)

text \<open>What a returned row says about the item it was made from.\<close>

lemma to_row_Inr:
  assumes "to_row (JDict d) city_name = Inr r"
  shows "\<exists>promo.
           py_or (dict_get d (u ''promotion'') JNull) (JDict []) = JDict promo \<and>
           (if truthy (dict_get promo (u ''isPromotion'') JNull)
            then money_from_int (dict_get d (u ''price'') JNull) = Inr (promo_price r) \<and>
                 (if isinstance_int (dict_get promo (u ''oldPrice'') JNull)
                  then money_from_int (dict_get promo (u ''oldPrice'') JNull) = Inr (regular_price r)
                  else money_from_int (dict_get d (u ''price'') JNull) = Inr (regular_price r))
            else money_from_int (dict_get d (u ''price'') JNull) = Inr (regular_price r) \<and>
                 promo_price r = None)"
proof (cases "py_or (dict_get d (u ''promotion'') JNull) (JDict [])")
  case (JDict promo)
  with assms show ?thesis
    by (auto simp add: to_row_def Let_def split: sum.splits json.splits if_splits)
qed (use assms in \<open>simp_all add: to_row_def\<close>)

lemma to_row_plain:
  assumes "plain_item d"
  shows "\<exists>r. to_row (JDict d) city_name = Inr r"
proof -
  from assms obtain promo where
    promo: "py_or (dict_get d (u ''promotion'') JNull) (JDict []) = JDict promo"
    by (auto simp add: plain_item_def split: json.splits)
  from assms obtain nm where
    nm: "py_or (dict_get d (u ''name'') JNull) (JStr []) = JStr nm"
    by (auto simp add: plain_item_def split: json.splits)
  from assms have "\<exists>p. money_from_int (dict_get d (u ''price'') JNull) = Inr p"
    by (intro money_from_int_plain) (simp add: plain_item_def)
  then obtain p where p: "money_from_int (dict_get d (u ''price'') JNull) = Inr p" ..
  from assms promo have "\<exists>q. isinstance_int (dict_get promo (u ''oldPrice'') JNull) \<longrightarrow>
      money_from_int (dict_get promo (u ''oldPrice'') JNull) = Inr q"
    by (cases "dict_get promo (u ''oldPrice'') JNull")
       (auto simp add: plain_item_def money_from_int_def float_exact_no_overflow)
  then obtain q where q: "isinstance_int (dict_get promo (u ''oldPrice'') JNull) \<Longrightarrow>
      money_from_int (dict_get promo (u ''oldPrice'') JNull) = Inr q" by blast
  from assms have "\<exists>pid. py_str (py_or (py_or (dict_get d (u ''productId'') JNull)
                                   (dict_get d (u ''id'') JNull)) (JStr [])) = Inr pid"
    by (cases "py_or (py_or (dict_get d (u ''productId'') JNull) (dict_get d (u ''id'') JNull))
                 (JStr [])")
       (simp_all add: plain_item_def)
  then obtain pid where pid: "py_str (py_or (py_or (dict_get d (u ''productId'') JNull)
                                   (dict_get d (u ''id'') JNull)) (JStr [])) = Inr pid" ..
  show ?thesis
    by (simp add: to_row_def Let_def promo nm p q pid)
qed

text \<open>The definitions that evaluate \<open>to_row\<close> on a given item.\<close>

lemmas row_eval =
  to_row_def plain_item_def py_or_def dict_get_def u_def money_from_int_def float_overflow_def
  float_exact_def
  py_round2_def round_half_even_def show_int_def show_nat.simps brand_eval

section \<open>Claims about the row transformer\<close>

text \<open>
  Claim C1. In a row that \<open>to_row\<close> returns for an item: when the promotion object of
  the item has its \<^verbatim>\<open>isPromotion\<close> flag set, the promo price is the converted price field,
  and the regular price is the converted \<^verbatim>\<open>oldPrice\<close> of the promotion when that is an
  integer (the converted price field otherwise); when the flag is not set, the regular
  price is the converted price field and the promo price is absent. The conversion of an
  integer (below \<open>2 ^ 52\<close> in absolute value) is its hundredth, and of an absent price the
  absent price. For an item with the
  field types the script is written for, a row is returned. The two items of the
  specification give the prices 5.00 and 7.00, and 5.00 and none.
\<close>

theorem to_row_prices:
  "(to_row (JDict d) city_name = Inr r \<longrightarrow>
      (\<exists>promo.
         py_or (dict_get d (u ''promotion'') JNull) (JDict []) = JDict promo \<and>
         (if truthy (dict_get promo (u ''isPromotion'') JNull)
          then money_from_int (dict_get d (u ''price'') JNull) = Inr (promo_price r) \<and>
               (if isinstance_int (dict_get promo (u ''oldPrice'') JNull)
                then money_from_int (dict_get promo (u ''oldPrice'') JNull) = Inr (regular_price r)
                else money_from_int (dict_get d (u ''price'') JNull) = Inr (regular_price r))
          else money_from_int (dict_get d (u ''price'') JNull) = Inr (regular_price r) \<and>
               promo_price r = None))) \<and>
   (plain_item d \<longrightarrow> (\<exists>r'. to_row (JDict d) city_name = Inr r')) \<and>
   money_from_int (JInt n) =
     (if float_overflow n then Inl OverflowError
      else if float_exact n then Inr (Some (of_int n / 100))
      else Inl Unmodelled) \<and>
   money_from_int JNull = Inr None \<and>
   to_row (JDict [(u ''price'', JInt 500),
                  (u ''promotion'', JDict [(u ''isPromotion'', JBool True),
                                           (u ''oldPrice'', JInt 700)])]) city_name =
     Inr \<lparr>product_id = [], name = [], regular_price = Some 7, promo_price = Some 5,
          brand = [], city = city_name\<rparr> \<and>
   to_row (JDict [(u ''price'', JInt 500),
                  (u ''promotion'', JDict [(u ''isPromotion'', JBool False)])]) city_name =
     Inr \<lparr>product_id = [], name = [], regular_price = Some 5, promo_price = None,
          brand = [], city = city_name\<rparr>"
proof (intro conjI impI)
  assume "to_row (JDict d) city_name = Inr r"
  then show "\<exists>promo.
         py_or (dict_get d (u ''promotion'') JNull) (JDict []) = JDict promo \<and>
         (if truthy (dict_get promo (u ''isPromotion'') JNull)
          then money_from_int (dict_get d (u ''price'') JNull) = Inr (promo_price r) \<and>
               (if isinstance_int (dict_get promo (u ''oldPrice'') JNull)
                then money_from_int (dict_get promo (u ''oldPrice'') JNull) = Inr (regular_price r)
                else money_from_int (dict_get d (u ''price'') JNull) = Inr (regular_price r))
          else money_from_int (dict_get d (u ''price'') JNull) = Inr (regular_price r) \<and>
               promo_price r = None)"
    by (rule to_row_Inr)
next
  assume "plain_item d"
  then show "\<exists>r'. to_row (JDict d) city_name = Inr r'"
    by (rule to_row_plain)
next
  show "money_from_int (JInt n) =
     (if float_overflow n then Inl OverflowError
      else if float_exact n then Inr (Some (of_int n / 100))
      else Inl Unmodelled)"
    by (rule money_from_int_int)
qed (simp_all add: row_eval)

text \<open>
  An item on promotion with price 12999 and old price 15999.
\<close>

theorem to_row_prices_witness:
  "plain_item [(u ''id'', JInt 77), (u ''name'', JStr (u '' Jacobs Monarch '')),
               (u ''price'', JInt 12999),
               (u ''promotion'', JDict [(u ''isPromotion'', JBool True),
                                        (u ''oldPrice'', JInt 15999)])] \<and>
   to_row (JDict [(u ''id'', JInt 77), (u ''name'', JStr (u '' Jacobs Monarch '')),
                  (u ''price'', JInt 12999),
                  (u ''promotion'', JDict [(u ''isPromotion'', JBool True),
                                           (u ''oldPrice'', JInt 15999)])]) (u ''Moscow'') =
     Inr \<lparr>product_id = u ''77'', name = u ''Jacobs Monarch'',
          regular_price = Some (15999 / 100), promo_price = Some (12999 / 100),
          brand = u ''Jacobs'', city = u ''Moscow''\<rparr> \<and>
   money_from_int (JInt 12999) = Inr (Some (12999 / 100)) \<and>
   money_from_int (JInt 15999) = Inr (Some (15999 / 100))"
proof -
  let ?d = "[(u ''id'', JInt 77), (u ''name'', JStr (u '' Jacobs Monarch '')),
               (u ''price'', JInt 12999),
               (u ''promotion'', JDict [(u ''isPromotion'', JBool True),
                                        (u ''oldPrice'', JInt 15999)])]"
  let ?r = "\<lparr>product_id = u ''77'', name = u ''Jacobs Monarch'',
          regular_price = Some (15999 / 100), promo_price = Some (12999 / 100),
          brand = u ''Jacobs'', city = u ''Moscow''\<rparr>"
  have p: "plain_item ?d"
    by (simp add: row_eval)
  have r: "to_row (JDict ?d) (u ''Moscow'') = Inr ?r"
    by (simp add: row_eval)
  have "\<exists>promo.
         py_or (dict_get ?d (u ''promotion'') JNull) (JDict []) = JDict promo \<and>
         (if truthy (dict_get promo (u ''isPromotion'') JNull)
          then money_from_int (dict_get ?d (u ''price'') JNull) = Inr (promo_price ?r) \<and>
               (if isinstance_int (dict_get promo (u ''oldPrice'') JNull)
                then money_from_int (dict_get promo (u ''oldPrice'') JNull) = Inr (regular_price ?r)
                else money_from_int (dict_get ?d (u ''price'') JNull) = Inr (regular_price ?r))
          else money_from_int (dict_get ?d (u ''price'') JNull) = Inr (regular_price ?r) \<and>
               promo_price ?r = None)"
    using to_row_prices [of ?d "u ''Moscow''" ?r 0] r by blast
  then have m: "money_from_int (JInt 12999) = Inr (Some (12999 / 100)) \<and>
      money_from_int (JInt 15999) = Inr (Some (15999 / 100))"
    by (simp add: py_or_def dict_get_def u_def)
  from p r m show ?thesis by blast
qed

text \<open>
  Claim C6, as amended. In a row that \<open>to_row\<close> returns for an item, each price that is
  present is a whole number of hundredths; when the price field of the item is an integer,
  the regular price or the promo price is its hundredth; when the price field is absent or
  null, the promo price is absent.
\<close>

theorem to_row_price_invariant:
  "to_row (JDict d) city_name = Inr r \<Longrightarrow>
     (\<forall>x. regular_price r = Some x \<longrightarrow> (\<exists>k::int. x = of_int k / 100)) \<and>
     (\<forall>x. promo_price r = Some x \<longrightarrow> (\<exists>k::int. x = of_int k / 100)) \<and>
     (\<forall>n. dict_get d (u ''price'') JNull = JInt n \<longrightarrow>
          regular_price r = Some (of_int n / 100) \<or> promo_price r = Some (of_int n / 100)) \<and>
     (dict_get d (u ''price'') JNull = JNull \<longrightarrow> promo_price r = None)"
proof -
  assume row: "to_row (JDict d) city_name = Inr r"
  from to_row_Inr [OF row] obtain promo where
    c: "if truthy (dict_get promo (u ''isPromotion'') JNull)
        then money_from_int (dict_get d (u ''price'') JNull) = Inr (promo_price r) \<and>
             (if isinstance_int (dict_get promo (u ''oldPrice'') JNull)
              then money_from_int (dict_get promo (u ''oldPrice'') JNull) = Inr (regular_price r)
              else money_from_int (dict_get d (u ''price'') JNull) = Inr (regular_price r))
        else money_from_int (dict_get d (u ''price'') JNull) = Inr (regular_price r) \<and>
             promo_price r = None"
    by blast
  have reg: "\<exists>v. money_from_int v = Inr (regular_price r)"
    using c by (auto split: if_splits)
  have pro: "promo_price r = None \<or> (\<exists>v. money_from_int v = Inr (promo_price r))"
    using c by (auto split: if_splits)
  have a: "\<forall>x. regular_price r = Some x \<longrightarrow> (\<exists>k::int. x = of_int k / 100)"
    using reg money_from_int_hundredths by metis
  have b: "\<forall>x. promo_price r = Some x \<longrightarrow> (\<exists>k::int. x = of_int k / 100)"
    using pro money_from_int_hundredths by (metis option.distinct(1))
  have e: "\<forall>n. dict_get d (u ''price'') JNull = JInt n \<longrightarrow>
          regular_price r = Some (of_int n / 100) \<or> promo_price r = Some (of_int n / 100)"
    using c by (auto simp add: money_from_int_int split: if_splits)
  have f: "dict_get d (u ''price'') JNull = JNull \<longrightarrow> promo_price r = None"
    using c by (auto simp add: money_from_int_def split: if_splits)
  from a b e f show ?thesis by blast
qed

text \<open>
  An item with price 45050 and no promotion.
\<close>

theorem to_row_price_invariant_witness:
  "to_row (JDict [(u ''id'', JInt 8), (u ''name'', JStr (u ''Lavazza Oro'')),
                  (u ''price'', JInt 45050)]) (u ''Moscow'') =
     Inr \<lparr>product_id = u ''8'', name = u ''Lavazza Oro'',
          regular_price = Some (45050 / 100), promo_price = None,
          brand = u ''Lavazza'', city = u ''Moscow''\<rparr> \<and>
   (\<exists>k::int. (45050 / 100 :: rat) = of_int k / 100)"
proof -
  let ?d = "[(u ''id'', JInt 8), (u ''name'', JStr (u ''Lavazza Oro'')), (u ''price'', JInt 45050)]"
  let ?r = "\<lparr>product_id = u ''8'', name = u ''Lavazza Oro'',
          regular_price = Some (45050 / 100), promo_price = None,
          brand = u ''Lavazza'', city = u ''Moscow''\<rparr>"
  have r: "to_row (JDict ?d) (u ''Moscow'') = Inr ?r"
    by (simp add: row_eval)
  from to_row_price_invariant [OF r]
  have "\<forall>x. regular_price ?r = Some x \<longrightarrow> (\<exists>k::int. x = of_int k / 100)"
    by blast
  then have "\<exists>k::int. (45050 / 100 :: rat) = of_int k / 100"
    by simp
  with r show ?thesis by blast
qed

text \<open>
  The claim as stated, that one of the two prices is always populated, fails for an item
  without a price field: \<^verbatim>\<open>money_from_int(None)\<close> is \<^verbatim>\<open>None\<close>, and both prices are
  absent.
\<close>

theorem to_row_without_price_counterexample:
  "to_row (JDict [(u ''id'', JInt 5), (u ''name'', JStr (u ''Jardin'')),
                  (u ''quantity'', JInt 3)]) (u ''Moscow'') =
     Inr \<lparr>product_id = u ''5'', name = u ''Jardin'', regular_price = None, promo_price = None,
          brand = u ''Jardin'', city = u ''Moscow''\<rparr>"
  by (simp add: row_eval)

section \<open>Properties of the city resolver\<close>

text \<open>The definitions that evaluate the city resolver on given arguments.\<close>

lemmas city_eval =
  resolve_city_def resolve_fias_def fias_of_city_def KNOWN_CITIES_def FIAS_SPB_def FIAS_MOSCOW_def
  py_strip_def py_lower_def lower_cp_def is_space_def u_def no_explicit_def one_city_def
  dict_get_def show_int_def show_nat.simps Let_def

lemma known_cities_values: "map_of KNOWN_CITIES k = Some v \<Longrightarrow> v \<noteq> []"
proof -
  assume "map_of KNOWN_CITIES k = Some v"
  then have "(k, v) \<in> set KNOWN_CITIES" by (rule map_of_SomeD)
  then have "v = FIAS_MOSCOW \<or> v = FIAS_SPB"
    by (auto simp add: KNOWN_CITIES_def)
  then show ?thesis
    by (auto simp add: FIAS_MOSCOW_def FIAS_SPB_def u_def)
qed

lemma known_cities_find: "find P KNOWN_CITIES = Some kv \<Longrightarrow> snd kv \<noteq> []"
proof -
  assume "find P KNOWN_CITIES = Some kv"
  then have "kv \<in> set KNOWN_CITIES"
    by (auto simp add: find_Some_iff)
  then have "snd kv = FIAS_MOSCOW \<or> snd kv = FIAS_SPB"
    by (auto simp add: KNOWN_CITIES_def)
  then show ?thesis
    by (auto simp add: FIAS_MOSCOW_def FIAS_SPB_def u_def)
qed

lemma resolve_fias_explicit:
  "f \<noteq> [] \<Longrightarrow>
     resolve_fias city_arg (Some f) =
       (if py_strip f = [] then Inl (RuntimeError NoFiasId) else Inr (py_strip f))"
  by (simp add: resolve_fias_def)

lemma resolve_fias_exact:
  "no_explicit fias_id \<Longrightarrow> c \<noteq> [] \<Longrightarrow> map_of KNOWN_CITIES (py_lower (py_strip c)) = Some v \<Longrightarrow>
     resolve_fias (Some c) fias_id = Inr v"
  using known_cities_values [of "py_lower (py_strip c)" v]
  by (auto simp add: resolve_fias_def no_explicit_def fias_of_city_def)

lemma resolve_fias_substring:
  "no_explicit fias_id \<Longrightarrow> c \<noteq> [] \<Longrightarrow> map_of KNOWN_CITIES (py_lower (py_strip c)) = None \<Longrightarrow>
   find (\<lambda>kv. py_in (fst kv) (py_lower (py_strip c))) KNOWN_CITIES = Some (k, v) \<Longrightarrow>
     resolve_fias (Some c) fias_id = Inr v"
  using known_cities_find [of "\<lambda>kv. py_in (fst kv) (py_lower (py_strip c))" "(k, v)"]
  by (auto simp add: resolve_fias_def no_explicit_def fias_of_city_def)

lemma resolve_fias_unknown:
  "no_explicit fias_id \<Longrightarrow>
   city_arg = None \<or> city_arg = Some [] \<or>
     (\<exists>c. city_arg = Some c \<and> map_of KNOWN_CITIES (py_lower (py_strip c)) = None \<and>
        find (\<lambda>kv. py_in (fst kv) (py_lower (py_strip c))) KNOWN_CITIES = None) \<Longrightarrow>
     resolve_fias city_arg fias_id = Inl (RuntimeError NoFiasId)"
  by (auto simp add: resolve_fias_def no_explicit_def fias_of_city_def)

lemma resolve_city_fias:
  "(resolve_fias city_arg fias_id = Inl e \<longrightarrow> resolve_city city_info city_arg fias_id = Inl e) \<and>
   (resolve_city city_info city_arg fias_id = Inr (cid, nm, f) \<longrightarrow>
      resolve_fias city_arg fias_id = Inr f)"
  by (auto simp add: resolve_city_def Let_def split: sum.splits reply.splits json.splits if_splits)

section \<open>Claim about the city resolver\<close>

text \<open>
  Claim C4, as amended. The geo-identifier is determined as follows. An explicit
  identifier that is not empty is used, whatever the city name, with the white space
  around it removed; when nothing is left, the configuration error is raised. Without
  one, the city name is trimmed and put in lower case; an exact key of the table gives its
  identifier; failing that, the first key of the table, in its order, that occurs in the
  normalised name gives its identifier; and when there is no city name or no key matches,
  the configuration error is raised. \<open>resolve_city\<close> fails with the error of this step
  whatever the service replies, and the identifier it returns is the one determined here.
\<close>

theorem resolve_city_policy:
  "(f \<noteq> [] \<longrightarrow>
      resolve_fias ca1 (Some f) =
        (if py_strip f = [] then Inl (RuntimeError NoFiasId) else Inr (py_strip f))) \<and>
   (no_explicit fid2 \<and> c2 \<noteq> [] \<and> map_of KNOWN_CITIES (py_lower (py_strip c2)) = Some v2 \<longrightarrow>
      resolve_fias (Some c2) fid2 = Inr v2) \<and>
   (no_explicit fid3 \<and> c3 \<noteq> [] \<and> map_of KNOWN_CITIES (py_lower (py_strip c3)) = None \<and>
    find (\<lambda>kv. py_in (fst kv) (py_lower (py_strip c3))) KNOWN_CITIES = Some (k3, v3) \<longrightarrow>
      resolve_fias (Some c3) fid3 = Inr v3) \<and>
   (no_explicit fid4 \<and>
    (ca4 = None \<or> ca4 = Some [] \<or>
     (\<exists>c. ca4 = Some c \<and> map_of KNOWN_CITIES (py_lower (py_strip c)) = None \<and>
        find (\<lambda>kv. py_in (fst kv) (py_lower (py_strip c))) KNOWN_CITIES = None)) \<longrightarrow>
      resolve_fias ca4 fid4 = Inl (RuntimeError NoFiasId)) \<and>
   (resolve_fias ca5 fid5 = Inl e5 \<longrightarrow> resolve_city srv5 ca5 fid5 = Inl e5) \<and>
   (resolve_city srv6 ca6 fid6 = Inr (cid6, nm6, g6) \<longrightarrow> resolve_fias ca6 fid6 = Inr g6)"
proof (intro conjI impI)
  assume "f \<noteq> []"
  then show "resolve_fias ca1 (Some f) =
        (if py_strip f = [] then Inl (RuntimeError NoFiasId) else Inr (py_strip f))"
    by (rule resolve_fias_explicit)
next
  assume "no_explicit fid2 \<and> c2 \<noteq> [] \<and> map_of KNOWN_CITIES (py_lower (py_strip c2)) = Some v2"
  then show "resolve_fias (Some c2) fid2 = Inr v2"
    using resolve_fias_exact by blast
next
  assume "no_explicit fid3 \<and> c3 \<noteq> [] \<and> map_of KNOWN_CITIES (py_lower (py_strip c3)) = None \<and>
    find (\<lambda>kv. py_in (fst kv) (py_lower (py_strip c3))) KNOWN_CITIES = Some (k3, v3)"
  then show "resolve_fias (Some c3) fid3 = Inr v3"
    using resolve_fias_substring by blast
next
  assume "no_explicit fid4 \<and>
    (ca4 = None \<or> ca4 = Some [] \<or>
     (\<exists>c. ca4 = Some c \<and> map_of KNOWN_CITIES (py_lower (py_strip c)) = None \<and>
        find (\<lambda>kv. py_in (fst kv) (py_lower (py_strip c))) KNOWN_CITIES = None))"
  then show "resolve_fias ca4 fid4 = Inl (RuntimeError NoFiasId)"
    using resolve_fias_unknown by blast
next
  assume "resolve_fias ca5 fid5 = Inl e5"
  then show "resolve_city srv5 ca5 fid5 = Inl e5"
    using resolve_city_fias by blast
next
  assume "resolve_city srv6 ca6 fid6 = Inr (cid6, nm6, g6)"
  then show "resolve_fias ca6 fid6 = Inr g6"
    using resolve_city_fias by blast
qed

text \<open>
  "Moscow" and "SPB" in either case and "moskva" in Cyrillic resolve; "Moscow, Russia"
  resolves by the substring rule; of "spb" and "moscow" in one name the key that comes
  first in the table wins; "Kazan" fails.
\<close>

theorem resolve_city_policy_witness:
  "resolve_fias (Some (u ''Moscow'')) (Some (u '' c2deb16a-0330-4f05-821f-1d09c93331e6 ''))
     = Inr FIAS_SPB \<and>
   resolve_fias (Some (u ''Moscow'')) None = Inr FIAS_MOSCOW \<and>
   resolve_fias (Some (u '' MOSCOW '')) (Some []) = Inr FIAS_MOSCOW \<and>
   resolve_fias (Some (u ''SPB'')) None = Inr FIAS_SPB \<and>
   resolve_fias (Some (u ''spb'')) None = Inr FIAS_SPB \<and>
   resolve_fias (Some [1052, 1086, 1089, 1082, 1074, 1072]) None = Inr FIAS_MOSCOW \<and>
   resolve_fias (Some (u ''Moscow, Russia'')) None = Inr FIAS_MOSCOW \<and>
   resolve_fias (Some (u ''spb or moscow'')) None = Inr FIAS_MOSCOW \<and>
   resolve_fias (Some (u ''Kazan'')) None = Inl (RuntimeError NoFiasId) \<and>
   resolve_city one_city (Some (u ''Kazan'')) None = Inl (RuntimeError NoFiasId) \<and>
   resolve_city one_city (Some (u ''Piter, spb'')) None = Inr (u ''1'', u ''Moscow'', FIAS_SPB)"
proof -
  note t = resolve_city_policy
    [of "u '' c2deb16a-0330-4f05-821f-1d09c93331e6 ''" "Some (u ''Moscow'')"
        "None" "u ''Moscow''" FIAS_MOSCOW
        "None" "u ''Moscow, Russia''" "u ''moscow''" FIAS_MOSCOW
        "None" "Some (u ''Kazan'')"
        "Some (u ''Kazan'')" "None" "RuntimeError NoFiasId" one_city
        one_city "Some (u ''Piter, spb'')" "None" "u ''1''" "u ''Moscow''" FIAS_SPB]
  have h1: "u '' c2deb16a-0330-4f05-821f-1d09c93331e6 '' \<noteq> []"
    by (simp add: u_def)
  have s1: "py_strip (u '' c2deb16a-0330-4f05-821f-1d09c93331e6 '') = FIAS_SPB"
    by (simp add: city_eval)
  have n1: "FIAS_SPB \<noteq> []"
    by (simp add: city_eval)
  have r1: "resolve_fias (Some (u ''Moscow'')) (Some (u '' c2deb16a-0330-4f05-821f-1d09c93331e6 ''))
     = Inr FIAS_SPB"
    using t h1 s1 n1 by simp
  have h2: "no_explicit None \<and> u ''Moscow'' \<noteq> [] \<and>
      map_of KNOWN_CITIES (py_lower (py_strip (u ''Moscow''))) = Some FIAS_MOSCOW"
    by (simp add: city_eval)
  have r2: "resolve_fias (Some (u ''Moscow'')) None = Inr FIAS_MOSCOW"
    using t h2 by blast
  have h3: "no_explicit None \<and> u ''Moscow, Russia'' \<noteq> [] \<and>
      map_of KNOWN_CITIES (py_lower (py_strip (u ''Moscow, Russia''))) = None \<and>
      find (\<lambda>kv. py_in (fst kv) (py_lower (py_strip (u ''Moscow, Russia'')))) KNOWN_CITIES =
        Some (u ''moscow'', FIAS_MOSCOW)"
    by (simp add: city_eval)
  have r3: "resolve_fias (Some (u ''Moscow, Russia'')) None = Inr FIAS_MOSCOW"
    using t h3 by blast
  have h4: "no_explicit None \<and>
    (Some (u ''Kazan'') = None \<or> Some (u ''Kazan'') = Some [] \<or>
     (\<exists>c. Some (u ''Kazan'') = Some c \<and> map_of KNOWN_CITIES (py_lower (py_strip c)) = None \<and>
        find (\<lambda>kv. py_in (fst kv) (py_lower (py_strip c))) KNOWN_CITIES = None))"
    by (simp add: city_eval)
  have r4: "resolve_fias (Some (u ''Kazan'')) None = Inl (RuntimeError NoFiasId)"
    using t h4 by blast
  have r5: "resolve_city one_city (Some (u ''Kazan'')) None = Inl (RuntimeError NoFiasId)"
    using t r4 by blast
  have r6: "resolve_city one_city (Some (u ''Piter, spb'')) None = Inr (u ''1'', u ''Moscow'', FIAS_SPB)"
    by (simp add: city_eval)
  have more:
    "resolve_fias (Some (u '' MOSCOW '')) (Some []) = Inr FIAS_MOSCOW"
    "resolve_fias (Some (u ''SPB'')) None = Inr FIAS_SPB"
    "resolve_fias (Some (u ''spb'')) None = Inr FIAS_SPB"
    "resolve_fias (Some [1052, 1086, 1089, 1082, 1074, 1072]) None = Inr FIAS_MOSCOW"
    "resolve_fias (Some (u ''spb or moscow'')) None = Inr FIAS_MOSCOW"
    by (simp_all add: city_eval)
  from r1 r2 r3 r4 r5 r6 more show ?thesis by blast
qed

text \<open>
  The claim as stated, that an explicit identifier is used verbatim, fails for one with
  white space around it: \<^verbatim>\<open>fias = fias_id.strip()\<close>.
\<close>

theorem explicit_fias_id_not_verbatim_counterexample:
  "resolve_city one_city None (Some (u '' abc '')) = Inr (u ''1'', u ''Moscow'', u ''abc'')"
  by (simp add: city_eval)

section \<open>Properties of the category locator\<close>

lemma walk_all_strings:
  "list_all (\<lambda>n. case n of JStr s \<Rightarrow> True | _ \<Rightarrow> False) ns \<Longrightarrow> walk_all ns = Inr None"
  by (induction ns) (auto split: json.splits)

lemma find_append_case:
  "find P (xs @ ys) = (case find P xs of None \<Rightarrow> find P ys | Some x \<Rightarrow> Some x)"
  by (induction xs) simp_all

lemma node_id_target: "is_target n \<Longrightarrow> node_id n \<noteq> Inr None"
  by (auto simp add: is_target_def node_id_def split: json.splits option.splits sum.splits)

lemma find_is_target: "find is_target ns = Some n \<Longrightarrow> is_target n"
  by (auto simp add: find_Some_iff)

lemma first_target_id_append:
  "first_target_id (xs @ ys) =
     (case first_target_id xs of
        Inl e \<Rightarrow> Inl e
      | Inr (Some i) \<Rightarrow> Inr (Some i)
      | Inr None \<Rightarrow> first_target_id ys)"
proof (cases "find is_target xs")
  case None
  then show ?thesis
    by (simp add: first_target_id_def find_append_case)
next
  case (Some n)
  with node_id_target [OF find_is_target [OF Some]] show ?thesis
    by (auto simp add: first_target_id_def find_append_case split: sum.splits option.splits)
qed

lemma children_cases:
  assumes "py_iter (py_or (dict_get d (u ''children'') (JList [])) (JList [])) = Inr chs"
  shows "(dict_get d (u ''children'') JNull = JList chs) \<or>
         (walk_all chs = Inr None \<and>
          (case dict_get d (u ''children'') JNull of JList xs \<Rightarrow> xs = [] | _ \<Rightarrow> True))"
proof (cases "map_of d (u ''children'')")
  case None
  with assms show ?thesis
    by (auto simp add: dict_get_def py_or_def)
next
  case (Some v)
  show ?thesis
  proof (cases v)
    case (JStr s)
    with assms Some have "chs = map (\<lambda>c. JStr [c]) s"
      by (auto simp add: dict_get_def py_or_def split: if_splits)
    then have "walk_all chs = Inr None"
      by (intro walk_all_strings) (simp add: list_all_iff)
    with JStr Some show ?thesis by (simp add: dict_get_def)
  next
    case (JDict dd)
    with assms Some have "chs = map (\<lambda>kv. JStr (fst kv)) dd"
      by (auto simp add: dict_get_def py_or_def split: if_splits)
    then have "walk_all chs = Inr None"
      by (intro walk_all_strings) (simp add: list_all_iff)
    with JDict Some show ?thesis by (simp add: dict_get_def)
  next
    case (JList xs)
    with assms Some show ?thesis
      by (auto simp add: dict_get_def py_or_def split: if_splits)
  qed (use assms Some in \<open>auto simp add: dict_get_def py_or_def split: if_splits\<close>)
qed

lemma walk_first_target:
  "(list_all children_iterable (tree_nodes t) \<longrightarrow> walk t = first_target_id (tree_nodes t))"
  "(list_all children_iterable (forest_nodes ns) \<longrightarrow> walk_all ns = first_target_id (forest_nodes ns))"
proof (induction t and ns rule: walk_walk_all.induct)
  case (1 d)
  show ?case
  proof (intro impI)
    assume wf: "list_all children_iterable (tree_nodes (JDict d))"
    show "walk (JDict d) = first_target_id (tree_nodes (JDict d))"
    proof (cases "dict_get d (u ''name'') JNull = JStr Kofe")
      case True
      then show ?thesis
        by (simp add: first_target_id_def is_target_def node_id_def)
    next
      case False
      from wf obtain chs where
        it: "py_iter (py_or (dict_get d (u ''children'') (JList [])) (JList [])) = Inr chs"
        by (auto simp add: children_iterable_def split: sum.splits)
      from children_cases [OF it] show ?thesis
      proof
        assume ch: "dict_get d (u ''children'') JNull = JList chs"
        with wf have "list_all children_iterable (forest_nodes chs)" by simp
        with "1.IH" [OF False it] have "walk_all chs = first_target_id (forest_nodes chs)"
          by simp
        with False it ch show ?thesis
          by (simp add: first_target_id_def is_target_def)
      next
        assume "walk_all chs = Inr None \<and>
          (case dict_get d (u ''children'') JNull of JList xs \<Rightarrow> xs = [] | _ \<Rightarrow> True)"
        with False it show ?thesis
          by (auto simp add: first_target_id_def is_target_def split: json.splits)
      qed
    qed
  qed
next
  case (2 ns)
  then show ?case by simp
next
  case (9 n ns)
  show ?case
  proof (intro impI)
    assume wf: "list_all children_iterable (forest_nodes (n # ns))"
    then have a: "walk n = first_target_id (tree_nodes n)"
      using "9.IH"(1) by simp
    show "walk_all (n # ns) = first_target_id (forest_nodes (n # ns))"
    proof (cases "walk n")
      case (Inl e)
      with a have "first_target_id (tree_nodes n) = Inl e" by simp
      with Inl show ?thesis by (simp add: first_target_id_append)
    next
      case (Inr r)
      show ?thesis
      proof (cases r)
        case None
        with Inr wf "9.IH"(2) have b: "walk_all ns = first_target_id (forest_nodes ns)"
          by simp
        from a Inr None have "first_target_id (tree_nodes n) = Inr None" by simp
        with b Inr None show ?thesis by (simp add: first_target_id_append)
      next
        case (Some i)
        with a Inr have "first_target_id (tree_nodes n) = Inr (Some i)" by simp
        with Inr Some show ?thesis by (simp add: first_target_id_append)
      qed
    qed
  qed
qed (simp_all add: first_target_id_def)

text \<open>The definitions that evaluate the category locator on a given tree.\<close>

lemmas category_eval =
  get_coffee_category_id_def category_def leaf_def u_def dict_get_def py_or_def Kofe_def
  is_target_def node_id_def first_target_id_def well_formed_def children_iterable_def

section \<open>Claim about the category locator\<close>

text \<open>
  Claim C5. On a tree of dict and list nodes the walk returns what the first node, depth
  first, whose name is exactly the target gives as its identifier, and \<^verbatim>\<open>None\<close> when
  there is no such node. So the locator fails with the not-found error, and with no other,
  on a tree with no matching node, on the empty tree and on a reply without a tree, and it
  returns the integer identifier of the first matching node, also when that node is inside
  lists of lists. A node without a children field is a leaf, and is accepted.
\<close>

theorem category_search:
  "(well_formed t \<longrightarrow> walk t = first_target_id (tree_nodes t)) \<and>
   (well_formed t2 \<and> dict_get d2 (u ''items'') (JList []) = t2 \<and>
    find is_target (tree_nodes t2) = None \<longrightarrow>
      get_coffee_category_id (Body (JDict d2)) = Inl (RuntimeError NoCoffeeCategory)) \<and>
   (well_formed t3 \<and> dict_get d3 (u ''items'') (JList []) = t3 \<and>
    find is_target (tree_nodes t3) = Some (JDict n3) \<and> map_of n3 (u ''id'') = Some (JInt i3) \<longrightarrow>
      get_coffee_category_id (Body (JDict d3)) = Inr i3) \<and>
   (map_of d4 (u ''children'') = None \<longrightarrow> children_iterable (JDict d4)) \<and>
   get_coffee_category_id (Body (JDict [(u ''items'', JList [])])) =
     Inl (RuntimeError NoCoffeeCategory) \<and>
   get_coffee_category_id (Body (JDict [])) = Inl (RuntimeError NoCoffeeCategory) \<and>
   get_coffee_category_id
     (Body (JDict [(u ''items'', JList [JList [leaf (u ''Tea'') 7, JList [leaf Kofe 42]]])])) = Inr 42"
proof (intro conjI impI)
  assume "well_formed t"
  then show "walk t = first_target_id (tree_nodes t)"
    using walk_first_target(1) by (simp add: well_formed_def)
next
  assume a: "well_formed t2 \<and> dict_get d2 (u ''items'') (JList []) = t2 \<and>
    find is_target (tree_nodes t2) = None"
  then have "walk t2 = first_target_id (tree_nodes t2)"
    using walk_first_target(1) by (simp add: well_formed_def)
  with a show "get_coffee_category_id (Body (JDict d2)) = Inl (RuntimeError NoCoffeeCategory)"
    by (simp add: get_coffee_category_id_def first_target_id_def)
next
  assume a: "well_formed t3 \<and> dict_get d3 (u ''items'') (JList []) = t3 \<and>
    find is_target (tree_nodes t3) = Some (JDict n3) \<and> map_of n3 (u ''id'') = Some (JInt i3)"
  then have "walk t3 = first_target_id (tree_nodes t3)"
    using walk_first_target(1) by (simp add: well_formed_def)
  with a show "get_coffee_category_id (Body (JDict d3)) = Inr i3"
    by (simp add: get_coffee_category_id_def first_target_id_def node_id_def)
next
  assume "map_of d4 (u ''children'') = None"
  then show "children_iterable (JDict d4)"
    by (simp add: children_iterable_def dict_get_def py_or_def)
qed (simp_all add: category_eval)

text \<open>
  A tree with leaves and no target: not found. A tree with the target at depth 3 and a
  second target after it: the identifier of the first.
\<close>

theorem category_search_witness:
  "map_of [(u ''id'', JInt 3), (u ''name'', JStr (u ''Bread''))] (u ''children'') = None \<and>
   children_iterable (JDict [(u ''id'', JInt 3), (u ''name'', JStr (u ''Bread''))]) \<and>
   well_formed (JList [category (u ''Drinks'') 1 [leaf [1063, 1072, 1081] 2], leaf (u ''Bread'') 3]) \<and>
   find is_target
     (tree_nodes (JList [category (u ''Drinks'') 1 [leaf [1063, 1072, 1081] 2], leaf (u ''Bread'') 3]))
     = None \<and>
   get_coffee_category_id
     (Body (JDict [(u ''items'',
        JList [category (u ''Drinks'') 1 [leaf [1063, 1072, 1081] 2], leaf (u ''Bread'') 3])]))
     = Inl (RuntimeError NoCoffeeCategory) \<and>
   well_formed
     (JList [category (u ''Drinks'') 1
               [leaf [1063, 1072, 1081] 2,
                category (u ''Hot'') 3 [leaf Kofe 42, leaf (u ''Cocoa'') 5]],
             leaf Kofe 99]) \<and>
   walk (JList [category (u ''Drinks'') 1
                  [leaf [1063, 1072, 1081] 2,
                   category (u ''Hot'') 3 [leaf Kofe 42, leaf (u ''Cocoa'') 5]],
                leaf Kofe 99]) = Inr (Some 42) \<and>
   get_coffee_category_id
     (Body (JDict [(u ''items'',
        JList [category (u ''Drinks'') 1
                 [leaf [1063, 1072, 1081] 2,
                  category (u ''Hot'') 3 [leaf Kofe 42, leaf (u ''Cocoa'') 5]],
               leaf Kofe 99])])) = Inr 42"
proof -
  let ?none = "JList [category (u ''Drinks'') 1 [leaf [1063, 1072, 1081] 2], leaf (u ''Bread'') 3]"
  let ?tree = "JList [category (u ''Drinks'') 1
               [leaf [1063, 1072, 1081] 2,
                category (u ''Hot'') 3 [leaf Kofe 42, leaf (u ''Cocoa'') 5]],
             leaf Kofe 99]"
  note t = category_search
    [of ?tree ?none "[(u ''items'', ?none)]" ?tree "[(u ''items'', ?tree)]"
        "[(u ''id'', JInt 42), (u ''name'', JStr Kofe)]" 42
        "[(u ''id'', JInt 3), (u ''name'', JStr (u ''Bread''))]"]
  have w1: "well_formed ?none"
    by (simp add: category_eval)
  have g1: "dict_get [(u ''items'', ?none)] (u ''items'') (JList []) = ?none"
    by (simp add: dict_get_def)
  have f1: "find is_target (tree_nodes ?none) = None"
    by (simp add: category_eval)
  have r1: "get_coffee_category_id (Body (JDict [(u ''items'', ?none)]))
     = Inl (RuntimeError NoCoffeeCategory)"
    using t w1 g1 f1 by blast
  have w2: "well_formed ?tree"
    by (simp add: category_eval)
  have g2: "dict_get [(u ''items'', ?tree)] (u ''items'') (JList []) = ?tree"
    by (simp add: dict_get_def)
  have f2: "find is_target (tree_nodes ?tree) = Some (JDict [(u ''id'', JInt 42), (u ''name'', JStr Kofe)])"
    by (simp add: category_eval)
  have i2: "map_of [(u ''id'', JInt 42), (u ''name'', JStr Kofe)] (u ''id'') = Some (JInt 42)"
    by simp
  have r2: "get_coffee_category_id (Body (JDict [(u ''items'', ?tree)])) = Inr 42"
    using t w2 g2 f2 i2 by blast
  have w: "walk ?tree = first_target_id (tree_nodes ?tree)"
    using t w2 by blast
  have e: "first_target_id (tree_nodes ?tree) = Inr (Some 42)"
    by (simp add: category_eval)
  from w e have r3: "walk ?tree = Inr (Some 42)"
    by (rule trans)
  have m: "map_of [(u ''id'', JInt 3), (u ''name'', JStr (u ''Bread''))] (u ''children'') = None"
    by (simp add: u_def)
  have ci: "children_iterable (JDict [(u ''id'', JInt 3), (u ''name'', JStr (u ''Bread''))])"
    using t m by blast
  from m ci w1 f1 r1 w2 r3 r2 show ?thesis by blast
qed

section \<open>Properties of the CSV writer\<close>

lemma lines_from_char:
  "c \<noteq> 10 \<Longrightarrow> c \<noteq> 13 \<Longrightarrow> xs \<noteq> [] \<Longrightarrow> lines_from cur (c # xs) = lines_from (c # cur) xs"
  by (cases xs) simp_all

lemma lines_from_line:
  "no_line_break l \<Longrightarrow>
     lines_from cur (l @ 13 # 10 # rest) = (rev cur @ l) # lines_from [] rest"
proof (induction l arbitrary: cur)
  case Nil
  then show ?case by simp
next
  case (Cons c l)
  from Cons.prems have c: "c \<noteq> 10" "c \<noteq> 13" and l: "no_line_break l"
    by (simp_all add: no_line_break_def)
  have "lines_from cur ((c # l) @ 13 # 10 # rest) = lines_from (c # cur) (l @ 13 # 10 # rest)"
    using lines_from_char [OF c, of "l @ 13 # 10 # rest" cur] by simp
  also have "\<dots> = (rev (c # cur) @ l) # lines_from [] rest"
    by (rule Cons.IH [OF l])
  finally show ?case by simp
qed

lemma read_lines_rows:
  "list_all no_line_break ls \<Longrightarrow> read_lines (concat (map (\<lambda>l. l @ [13, 10]) ls)) = ls"
proof (induction ls)
  case Nil
  then show ?case by (simp add: read_lines_def)
next
  case (Cons l ls)
  then have l: "no_line_break l" and IH: "lines_from [] (concat (map (\<lambda>l. l @ [13, 10]) ls)) = ls"
    by (simp_all add: read_lines_def)
  show ?case
    using lines_from_line [OF l, of "[]" "concat (map (\<lambda>l. l @ [13, 10]) ls)"] IH
    by (simp add: read_lines_def)
qed

lemma show_nat_digits: "list_all (\<lambda>c. 48 \<le> c \<and> c \<le> 57) (show_nat n)"
proof (induction n rule: show_nat.induct)
  case (1 n)
  show ?case
  proof (cases "n < 10")
    case True
    then show ?thesis by (subst show_nat.simps) simp
  next
    case False
    have "n mod 10 < 10" by simp
    then have "48 + n mod 10 \<le> 57" by linarith
    with False "1.IH" show ?thesis by (subst show_nat.simps) simp
  qed
qed

lemma fmt2_shape:
  "\<exists>ip a b. fmt2 x = ip @ [46, 48 + a, 48 + b] \<and> a < 10 \<and> b < 10 \<and>
      list_all (\<lambda>c. c = 45 \<or> (48 \<le> c \<and> c \<le> 57)) ip"
proof -
  define n where "n = nat \<bar>round_half_even (x * 100)\<bar>"
  define ip where "ip = (if x < 0 then [45] else []) @ show_nat (n div 100)"
  have "fmt2 x = ip @ [46, 48 + n mod 100 div 10, 48 + n mod 10]"
    by (simp add: fmt2_def Let_def n_def ip_def)
  moreover have "n mod 100 div 10 < 10"
  proof -
    have "n mod 100 < 100" by simp
    then show ?thesis by (simp add: less_mult_imp_div_less)
  qed
  moreover have "n mod 10 < 10" by simp
  moreover have "list_all (\<lambda>c. c = 45 \<or> (48 \<le> c \<and> c \<le> 57)) ip"
    using show_nat_digits [of "n div 100"]
    by (auto simp add: ip_def list_all_iff)
  ultimately show ?thesis by blast
qed

lemma price_field_plain:
  "list_all (\<lambda>c. c = 45 \<or> c = 46 \<or> (48 \<le> c \<and> c \<le> 57)) (price_field p)"
proof (cases p)
  case None
  then show ?thesis by (simp add: price_field_def)
next
  case (Some x)
  from fmt2_shape [of x] obtain ip a b where
    "fmt2 x = ip @ [46, 48 + a, 48 + b]" "a < 10" "b < 10"
    "list_all (\<lambda>c. c = 45 \<or> (48 \<le> c \<and> c \<le> 57)) ip"
    by blast
  with Some show ?thesis
    by (auto simp add: price_field_def list_all_iff)
qed

lemma price_field_no_quotes: "\<not> needs_quotes (price_field p)"
  using price_field_plain [of p]
  by (auto simp add: needs_quotes_def list_all_iff list_ex_iff)

lemma price_field_no_line_break: "no_line_break (price_field p)"
  using price_field_plain [of p]
  by (auto simp add: no_line_break_def list_all_iff)

lemma csv_field_no_line_break: "no_line_break f \<Longrightarrow> no_line_break (csv_field f)"
  by (auto simp add: no_line_break_def csv_field_def list_all_iff split: if_splits)

lemma join_no_line_break:
  "list_all no_line_break fs \<Longrightarrow> no_line_break (join [59] fs)"
  by (induction "[59::nat]" fs rule: join.induct) (auto simp add: no_line_break_def)

lemma csv_line_no_line_break:
  "list_all no_line_break fs \<Longrightarrow> no_line_break (csv_line fs)"
  unfolding csv_line_def
  by (intro join_no_line_break) (simp add: list_all_iff csv_field_no_line_break)

lemma row_line_no_line_break: "single_line r \<Longrightarrow> no_line_break (csv_line (row_fields r))"
  by (intro csv_line_no_line_break)
     (simp add: row_fields_def single_line_def price_field_no_line_break)

lemma header_line: "csv_line header = u ''id;name;regular_price;promo_price;brand;city''"
  by (simp add: csv_line_def header_def csv_field_def needs_quotes_def u_def)

lemma header_no_line_break: "no_line_break (csv_line header)"
  by (simp add: header_line) (simp add: no_line_break_def u_def)

lemma csv_text_lines:
  "csv_text rows =
     concat (map (\<lambda>l. l @ [13, 10]) (csv_line header # map (\<lambda>r. csv_line (row_fields r)) rows))"
  by (simp add: csv_text_def writerow_def comp_def)

lemma read_lines_csv_text:
  assumes "list_all single_line rows"
  shows "read_lines (csv_text rows) = csv_line header # map (\<lambda>r. csv_line (row_fields r)) rows"
proof -
  have "list_all no_line_break (csv_line header # map (\<lambda>r. csv_line (row_fields r)) rows)"
    using assms header_no_line_break row_line_no_line_break
    by (auto simp add: list_all_iff)
  then show ?thesis
    unfolding csv_text_lines by (rule read_lines_rows)
qed

lemma row_line:
  "csv_line (row_fields r) =
     csv_field (product_id r) @ [59] @ csv_field (name r) @ [59] @
     price_field (regular_price r) @ [59] @ price_field (promo_price r) @ [59] @
     csv_field (brand r) @ [59] @ csv_field (city r)"
  using price_field_no_quotes [of "regular_price r"] price_field_no_quotes [of "promo_price r"]
  by (simp add: csv_line_def row_fields_def csv_field_def)

lemma utf8_encode_total: "encodable s \<Longrightarrow> \<exists>bytes. utf8_encode s = Inr bytes"
proof (induction s)
  case Nil
  then show ?case by simp
next
  case (Cons c s)
  then obtain rest where "utf8_encode s = Inr rest"
    by (auto simp add: encodable_def)
  moreover from Cons.prems have "\<exists>bs. utf8_char c = Inr bs"
    by (auto simp add: encodable_def utf8_char_def)
  ultimately show ?case by auto
qed

lemma write_csv_bom:
  "encodable (csv_text rows) \<Longrightarrow>
     \<exists>bytes. utf8_encode (csv_text rows) = Inr bytes \<and> write_csv rows = Inr ([239, 187, 191] @ bytes)"
  using utf8_encode_total [of "csv_text rows"]
  by (auto simp add: write_csv_def)

text \<open>
  A field is quoted exactly when it holds a semicolon, a double quote or a line break, and
  the reader gets every field of a written line back.
\<close>

lemma needs_quotes_iff:
  "needs_quotes f = (59 \<in> set f \<or> 34 \<in> set f \<or> 13 \<in> set f \<or> 10 \<in> set f)"
  by (auto simp add: needs_quotes_def list_ex_iff)

lemma csv_field_quoted:
  "59 \<in> set f \<or> 34 \<in> set f \<or> 13 \<in> set f \<or> 10 \<in> set f \<Longrightarrow>
     csv_field f = 34 # concat (map (\<lambda>c. if c = 34 then [34, 34] else [c]) f) @ [34]"
  by (simp add: csv_field_def needs_quotes_iff)

lemma csv_field_plain:
  "59 \<notin> set g \<and> 34 \<notin> set g \<and> 13 \<notin> set g \<and> 10 \<notin> set g \<Longrightarrow> csv_field g = g"
  by (simp add: csv_field_def needs_quotes_iff)

lemma read_in_field:
  "59 \<notin> set f \<Longrightarrow> rest = [] \<or> hd rest = 59 \<Longrightarrow>
     read_from InField cur (f @ rest) = after_field (cur @ f) rest"
proof (induction f arbitrary: cur)
  case Nil
  then show ?case by (cases rest) (auto simp add: after_field_def)
next
  case (Cons c f)
  then show ?case by simp
qed

lemma read_start_field:
  "59 \<notin> set f \<Longrightarrow> 34 \<notin> set f \<Longrightarrow> rest = [] \<or> hd rest = 59 \<Longrightarrow>
     read_from StartField [] (f @ rest) = after_field f rest"
proof (cases f)
  case Nil
  assume "rest = [] \<or> hd rest = 59"
  with Nil show ?thesis by (cases rest) (auto simp add: after_field_def)
next
  case (Cons c f')
  assume "59 \<notin> set f" "34 \<notin> set f" "rest = [] \<or> hd rest = 59"
  with Cons read_in_field [of f' rest "[c]"] show ?thesis by simp
qed

lemma read_in_quoted_field:
  "read_from InQuotedField cur
     (concat (map (\<lambda>c. if c = 34 then [34, 34] else [c]) f) @ 34 # rest)
     = read_from QuoteInQuotedField (cur @ f) rest"
  by (induction f arbitrary: cur) simp_all

lemma read_quote_end:
  "rest = [] \<or> hd rest = 59 \<Longrightarrow> read_from QuoteInQuotedField cur rest = after_field cur rest"
  by (cases rest) (auto simp add: after_field_def)

lemma read_csv_field:
  "rest = [] \<or> hd rest = 59 \<Longrightarrow>
     read_from StartField [] (csv_field f @ rest) = after_field f rest"
proof (cases "needs_quotes f")
  case True
  assume r: "rest = [] \<or> hd rest = 59"
  from True show ?thesis
    using read_in_quoted_field [of "[]" f rest] read_quote_end [OF r, of f]
    by (simp add: csv_field_def)
next
  case False
  assume r: "rest = [] \<or> hd rest = 59"
  from False have "59 \<notin> set f" "34 \<notin> set f" by (auto simp add: needs_quotes_iff)
  from read_start_field [OF this r] False show ?thesis
    by (simp add: csv_field_def)
qed

lemma read_fields_join:
  "fs \<noteq> [] \<Longrightarrow> read_from StartField [] (join [59] (map csv_field fs)) = fs"
proof (induction fs rule: induct_list012)
  case 1
  then show ?case by simp
next
  case (2 f)
  from read_csv_field [of "[]" f] show ?case by (simp add: after_field_def)
next
  case (3 f g fs)
  from read_csv_field [of "59 # join [59] (map csv_field (g # fs))" f] 3 show ?case
    by (simp add: after_field_def)
qed

lemma read_fields_csv_line: "fs \<noteq> [] \<Longrightarrow> read_fields (csv_line fs) = fs"
  by (simp add: read_fields_def csv_line_def read_fields_join)

lemma read_fields_row: "read_fields (csv_line (row_fields r)) = row_fields r"
  by (rule read_fields_csv_line) (simp add: row_fields_def)

text \<open>The definitions that evaluate the CSV writer on given records.\<close>

lemmas csv_eval =
  csv_text_def writerow_def csv_line_def row_fields_def header_def csv_field_def needs_quotes_def
  price_field_def fmt2_def round_half_even_def show_nat.simps read_lines_def read_fields_def
  write_csv_def
  utf8_char_def single_line_def no_line_break_def encodable_def u_def Let_def

section \<open>Claim about the CSV writer\<close>

text \<open>
  Claim C8, as amended. For a list of N records whose text fields hold no line break, the
  text that \<open>write_csv\<close> writes, each row ended by carriage return and line feed, reads
  back as exactly N + 1 lines: the header
  \<^verbatim>\<open>id;name;regular_price;promo_price;brand;city\<close>, then one line for each record, in
  order, made of its six fields joined by semicolons, which the reader splits into the six
  fields again. A text field that holds a semicolon, a double quote or a line break is put
  between double quotes, with each double quote in it doubled; any other text field is
  written as it is; an absent price is the empty field, and a present price is written with
  a point and exactly two digits after it. When the text can be encoded, the file is the
  three bytes of the byte-order mark, which are the UTF-8 encoding of U+FEFF, followed by
  the UTF-8 encoding of the text.
\<close>

theorem write_csv_lines:
  "(list_all single_line rows \<longrightarrow>
      read_lines (csv_text rows) = csv_line header # map (\<lambda>r. csv_line (row_fields r)) rows \<and>
      length (read_lines (csv_text rows)) = length rows + 1) \<and>
   (encodable (csv_text rows) \<longrightarrow>
      (\<exists>bytes. utf8_encode (csv_text rows) = Inr bytes \<and>
         write_csv rows = Inr ([239, 187, 191] @ bytes))) \<and>
   csv_text rows =
     concat (map (\<lambda>l. l @ [13, 10]) (csv_line header # map (\<lambda>r. csv_line (row_fields r)) rows)) \<and>
   utf8_char 65279 = Inr [239, 187, 191] \<and>
   csv_line header = u ''id;name;regular_price;promo_price;brand;city'' \<and>
   csv_line (row_fields r) =
     csv_field (product_id r) @ [59] @ csv_field (name r) @ [59] @
     price_field (regular_price r) @ [59] @ price_field (promo_price r) @ [59] @
     csv_field (brand r) @ [59] @ csv_field (city r) \<and>
   read_fields (csv_line (row_fields r)) =
     [product_id r, name r, price_field (regular_price r), price_field (promo_price r),
      brand r, city r] \<and>
   (59 \<in> set f \<or> 34 \<in> set f \<or> 13 \<in> set f \<or> 10 \<in> set f \<longrightarrow>
      csv_field f = 34 # concat (map (\<lambda>c. if c = 34 then [34, 34] else [c]) f) @ [34]) \<and>
   (59 \<notin> set g \<and> 34 \<notin> set g \<and> 13 \<notin> set g \<and> 10 \<notin> set g \<longrightarrow> csv_field g = g) \<and>
   price_field None = [] \<and>
   (\<exists>ip a b. price_field (Some x) = ip @ [46, 48 + a, 48 + b] \<and> a < 10 \<and> b < 10 \<and>
      list_all (\<lambda>c. c = 45 \<or> (48 \<le> c \<and> c \<le> 57)) ip)"
proof (intro conjI impI)
  assume a: "list_all single_line rows"
  from read_lines_csv_text [OF a]
  show "read_lines (csv_text rows) = csv_line header # map (\<lambda>r. csv_line (row_fields r)) rows" .
  from read_lines_csv_text [OF a]
  show "length (read_lines (csv_text rows)) = length rows + 1" by simp
next
  assume "encodable (csv_text rows)"
  then show "\<exists>bytes. utf8_encode (csv_text rows) = Inr bytes \<and>
         write_csv rows = Inr ([239, 187, 191] @ bytes)"
    by (rule write_csv_bom)
next
  show "csv_text rows =
     concat (map (\<lambda>l. l @ [13, 10]) (csv_line header # map (\<lambda>r. csv_line (row_fields r)) rows))"
    by (rule csv_text_lines)
next
  show "utf8_char 65279 = Inr [239, 187, 191]"
    by (simp add: utf8_char_def)
next
  show "csv_line header = u ''id;name;regular_price;promo_price;brand;city''"
    by (rule header_line)
next
  show "csv_line (row_fields r) =
     csv_field (product_id r) @ [59] @ csv_field (name r) @ [59] @
     price_field (regular_price r) @ [59] @ price_field (promo_price r) @ [59] @
     csv_field (brand r) @ [59] @ csv_field (city r)"
    by (rule row_line)
next
  show "read_fields (csv_line (row_fields r)) =
     [product_id r, name r, price_field (regular_price r), price_field (promo_price r),
      brand r, city r]"
    using read_fields_row [of r] by (simp add: row_fields_def)
next
  assume "59 \<in> set f \<or> 34 \<in> set f \<or> 13 \<in> set f \<or> 10 \<in> set f"
  then show "csv_field f = 34 # concat (map (\<lambda>c. if c = 34 then [34, 34] else [c]) f) @ [34]"
    by (rule csv_field_quoted)
next
  assume "59 \<notin> set g \<and> 34 \<notin> set g \<and> 13 \<notin> set g \<and> 10 \<notin> set g"
  then show "csv_field g = g" by (rule csv_field_plain)
next
  show "price_field None = []" by (simp add: price_field_def)
next
  show "\<exists>ip a b. price_field (Some x) = ip @ [46, 48 + a, 48 + b] \<and> a < 10 \<and> b < 10 \<and>
      list_all (\<lambda>c. c = 45 \<or> (48 \<le> c \<and> c \<le> 57)) ip"
    using fmt2_shape [of x] by (simp add: price_field_def)
qed

text \<open>
  Two records, one with a semicolon in its name and a Cyrillic city: three lines, and the
  six fields of the last one read back. The bytes of a file of one record. The name
  \<^verbatim>\<open>Lavazza "Oro"\<close> is written between double quotes with its own doubled, and the
  brand \<^verbatim>\<open>Jacobs\<close> as it is.
\<close>

theorem write_csv_lines_witness:
  "list_all single_line
     [\<lparr>product_id = u ''77'', name = u ''Jacobs Monarch'', regular_price = Some (15999 / 100),
       promo_price = Some (12999 / 100), brand = u ''Jacobs'', city = u ''Moscow''\<rparr>,
      \<lparr>product_id = u ''8'', name = u ''Lavazza; Oro'', regular_price = Some 5,
       promo_price = None, brand = u ''Lavazza'', city = [1052, 1086, 1089, 1082, 1074, 1072]\<rparr>] \<and>
   read_lines (csv_text
     [\<lparr>product_id = u ''77'', name = u ''Jacobs Monarch'', regular_price = Some (15999 / 100),
       promo_price = Some (12999 / 100), brand = u ''Jacobs'', city = u ''Moscow''\<rparr>,
      \<lparr>product_id = u ''8'', name = u ''Lavazza; Oro'', regular_price = Some 5,
       promo_price = None, brand = u ''Lavazza'', city = [1052, 1086, 1089, 1082, 1074, 1072]\<rparr>])
     = [u ''id;name;regular_price;promo_price;brand;city'',
        u ''77;Jacobs Monarch;159.99;129.99;Jacobs;Moscow'',
        [56, 59, 34, 76, 97, 118, 97, 122, 122, 97, 59, 32, 79, 114, 111, 34, 59, 53, 46, 48, 48,
         59, 59, 76, 97, 118, 97, 122, 122, 97, 59, 1052, 1086, 1089, 1082, 1074, 1072]] \<and>
   read_fields
     [56, 59, 34, 76, 97, 118, 97, 122, 122, 97, 59, 32, 79, 114, 111, 34, 59, 53, 46, 48, 48,
      59, 59, 76, 97, 118, 97, 122, 122, 97, 59, 1052, 1086, 1089, 1082, 1074, 1072]
     = [u ''8'', u ''Lavazza; Oro'', u ''5.00'', [], u ''Lavazza'',
        [1052, 1086, 1089, 1082, 1074, 1072]] \<and>
   encodable (csv_text
     [\<lparr>product_id = u ''8'', name = u ''Oro'', regular_price = None,
       promo_price = None, brand = u ''Oro'', city = [1052]\<rparr>]) \<and>
   write_csv
     [\<lparr>product_id = u ''8'', name = u ''Oro'', regular_price = None,
       promo_price = None, brand = u ''Oro'', city = [1052]\<rparr>]
     = Inr ([239, 187, 191] @
            [105, 100, 59, 110, 97, 109, 101, 59, 114, 101, 103, 117, 108, 97, 114, 95, 112, 114,
             105, 99, 101, 59, 112, 114, 111, 109, 111, 95, 112, 114, 105, 99, 101, 59, 98, 114,
             97, 110, 100, 59, 99, 105, 116, 121, 13, 10,
             56, 59, 79, 114, 111, 59, 59, 59, 79, 114, 111, 59, 208, 156, 13, 10]) \<and>
   34 \<in> set [76, 97, 118, 97, 122, 122, 97, 32, 34, 79, 114, 111, 34] \<and>
   csv_field [76, 97, 118, 97, 122, 122, 97, 32, 34, 79, 114, 111, 34]
     = [34, 76, 97, 118, 97, 122, 122, 97, 32, 34, 34, 79, 114, 111, 34, 34, 34] \<and>
   59 \<notin> set (u ''Jacobs'') \<and> 34 \<notin> set (u ''Jacobs'') \<and> 13 \<notin> set (u ''Jacobs'') \<and>
   10 \<notin> set (u ''Jacobs'') \<and>
   csv_field (u ''Jacobs'') = u ''Jacobs''"
proof -
  let ?r1 = "\<lparr>product_id = u ''77'', name = u ''Jacobs Monarch'',
       regular_price = Some (15999 / 100),
       promo_price = Some (12999 / 100), brand = u ''Jacobs'', city = u ''Moscow''\<rparr>"
  let ?r2 = "\<lparr>product_id = u ''8'', name = u ''Lavazza; Oro'', regular_price = Some 5,
       promo_price = None, brand = u ''Lavazza'', city = [1052, 1086, 1089, 1082, 1074, 1072]\<rparr>"
  let ?rows = "[?r1, ?r2]"
  let ?one = "[\<lparr>product_id = u ''8'', name = u ''Oro'', regular_price = None,
       promo_price = None, brand = u ''Oro'', city = [1052]\<rparr>]"
  let ?l2 = "[56, 59, 34, 76, 97, 118, 97, 122, 122, 97, 59, 32, 79, 114, 111, 34, 59, 53, 46, 48,
       48, 59, 59, 76, 97, 118, 97, 122, 122, 97, 59, 1052, 1086, 1089, 1082, 1074, 1072]"
  let ?q = "[76, 97, 118, 97, 122, 122, 97, 32, 34, 79, 114, 111, 34]"
  have s: "list_all single_line ?rows"
    by (simp add: csv_eval)
  from write_csv_lines [where rows = "?rows"] s
  have "read_lines (csv_text ?rows) = csv_line header # map (\<lambda>r. csv_line (row_fields r)) ?rows"
    by blast
  also have "\<dots> = [u ''id;name;regular_price;promo_price;brand;city'',
        u ''77;Jacobs Monarch;159.99;129.99;Jacobs;Moscow'', ?l2]"
    by (simp add: csv_eval)
  finally have l: "read_lines (csv_text ?rows) = [u ''id;name;regular_price;promo_price;brand;city'',
        u ''77;Jacobs Monarch;159.99;129.99;Jacobs;Moscow'', ?l2]" .
  have l2: "csv_line (row_fields ?r2) = ?l2"
    by (simp add: csv_eval)
  from write_csv_lines [where r = "?r2"]
  have "read_fields (csv_line (row_fields ?r2)) =
     [product_id ?r2, name ?r2, price_field (regular_price ?r2), price_field (promo_price ?r2),
      brand ?r2, city ?r2]"
    by blast
  also have "\<dots> = [u ''8'', u ''Lavazza; Oro'', u ''5.00'', [], u ''Lavazza'',
        [1052, 1086, 1089, 1082, 1074, 1072]]"
    by (simp add: csv_eval)
  finally have f: "read_fields ?l2 = [u ''8'', u ''Lavazza; Oro'', u ''5.00'', [], u ''Lavazza'',
        [1052, 1086, 1089, 1082, 1074, 1072]]"
    unfolding l2 .
  have e: "encodable (csv_text ?one)"
    by (simp add: csv_eval)
  from write_csv_lines [where rows = "?one"] e
  obtain bytes where b: "utf8_encode (csv_text ?one) = Inr bytes"
    and w: "write_csv ?one = Inr ([239, 187, 191] @ bytes)"
    by blast
  have "utf8_encode (csv_text ?one) = Inr
            [105, 100, 59, 110, 97, 109, 101, 59, 114, 101, 103, 117, 108, 97, 114, 95, 112, 114,
             105, 99, 101, 59, 112, 114, 111, 109, 111, 95, 112, 114, 105, 99, 101, 59, 98, 114,
             97, 110, 100, 59, 99, 105, 116, 121, 13, 10,
             56, 59, 79, 114, 111, 59, 59, 59, 79, 114, 111, 59, 208, 156, 13, 10]"
    by (simp add: csv_eval)
  with b w have w': "write_csv ?one = Inr ([239, 187, 191] @
            [105, 100, 59, 110, 97, 109, 101, 59, 114, 101, 103, 117, 108, 97, 114, 95, 112, 114,
             105, 99, 101, 59, 112, 114, 111, 109, 111, 95, 112, 114, 105, 99, 101, 59, 98, 114,
             97, 110, 100, 59, 99, 105, 116, 121, 13, 10,
             56, 59, 79, 114, 111, 59, 59, 59, 79, 114, 111, 59, 208, 156, 13, 10])"
    by simp
  have q: "34 \<in> set ?q" by simp
  from write_csv_lines [where f = "?q"] q
  have "csv_field ?q = 34 # concat (map (\<lambda>c. if c = 34 then [34, 34] else [c]) ?q) @ [34]"
    by blast
  then have q': "csv_field ?q = [34, 76, 97, 118, 97, 122, 122, 97, 32, 34, 34, 79, 114, 111, 34, 34, 34]"
    by simp
  have p: "59 \<notin> set (u ''Jacobs'') \<and> 34 \<notin> set (u ''Jacobs'') \<and> 13 \<notin> set (u ''Jacobs'') \<and>
           10 \<notin> set (u ''Jacobs'')"
    by (simp add: u_def)
  from write_csv_lines [where g = "u ''Jacobs''"] p
  have p': "csv_field (u ''Jacobs'') = u ''Jacobs''"
    by blast
  from s l f e w' q q' p p' show ?thesis by (intro conjI) simp_all
qed

text \<open>
  The claim as stated, N + 1 lines for every list of records, fails for a record whose
  name holds a line feed: the writer quotes the field and keeps the line feed, and the one
  record reads back as two lines.
\<close>

theorem line_break_in_name_counterexample:
  "read_lines (csv_text
     [\<lparr>product_id = u ''1'', name = [74, 97, 114, 100, 105, 110, 10, 57, 53, 103],
       regular_price = Some 5, promo_price = None, brand = u ''Jardin'', city = u ''Moscow''\<rparr>])
     = [u ''id;name;regular_price;promo_price;brand;city'',
        [49, 59, 34, 74, 97, 114, 100, 105, 110],
        [57, 53, 103, 34, 59, 53, 46, 48, 48, 59, 59, 74, 97, 114, 100, 105, 110, 59, 77, 111,
         115, 99, 111, 119]]"
  by (simp add: csv_eval)

section \<open>Properties of the run\<close>

lemma page_loop_fetch_fails:
  "list_all (\<lambda>rp. \<not> empty_page rp) pre \<Longrightarrow>
     \<exists>e'. fst (page_loop f c ci l (pre @ Raises e # rest) off tok acc) = Some (Inl e')"
proof (induction pre arbitrary: off tok acc)
  case Nil
  then show ?case by (simp add: goods_search_page_def)
next
  case (Cons rp pre)
  then have ne: "\<not> empty_page rp" and rest: "list_all (\<lambda>rp. \<not> empty_page rp) pre"
    by simp_all
  show ?case
    using ne Cons.IH [OF rest]
    by (auto simp add: Let_def empty_page_def split: sum.splits prod.splits)
qed

lemma main_calls_at_most_once: "length (csv_calls (main a w)) \<le> 1"
  by (simp add: main_def split: sum.splits option.splits prod.splits)

lemma main_city_fails:
  "resolve_city (w_city_info w) (arg_city a) (arg_fias_id a) = Inl e \<Longrightarrow> csv_calls (main a w) = []"
  by (simp add: main_def)

lemma main_category_fails:
  "get_coffee_category_id (w_categories w) = Inl e \<Longrightarrow> csv_calls (main a w) = []"
  by (simp add: main_def split: sum.splits prod.splits)

lemma main_fetch_fails:
  "w_pages w = pre @ Raises e # rest \<Longrightarrow> list_all (\<lambda>rp. \<not> empty_page rp) pre \<Longrightarrow>
     csv_calls (main a w) = []"
proof -
  assume p: "w_pages w = pre @ Raises e # rest" and ne: "list_all (\<lambda>rp. \<not> empty_page rp) pre"
  have "\<exists>e'. fst (page_loop f c ci l (w_pages w) 0 (JStr []) []) = Some (Inl e')" for f :: "ProductRow list \<Rightarrow> json \<Rightarrow> error + ProductRow list" and c ci l
    unfolding p by (rule page_loop_fetch_fails [OF ne])
  then show ?thesis
    by (auto simp add: main_def split: sum.splits prod.splits option.splits)
       (metis Inl_Inr_False option.inject)+
qed

lemma main_pending: "exit_code (main a w) = None \<Longrightarrow> csv_calls (main a w) = []"
  by (auto simp add: main_def split: sum.splits option.splits prod.splits if_splits)

lemma main_call:
  "csv_calls (main a w) = [(rows, out)] \<Longrightarrow>
     out = arg_out a \<and>
     (\<exists>city_id city_name fias cat.
        resolve_city (w_city_info w) (arg_city a) (arg_fias_id a) = Inr (city_id, city_name, fias) \<and>
        get_coffee_category_id (w_categories w) = Inr cat \<and>
        fst (page_loop (append_row city_name) cat city_id (arg_limit a) (w_pages w) 0 (JStr []) [])
          = Some (Inr rows))"
  by (auto simp add: main_def split: sum.splits option.splits prod.splits if_splits)

text \<open>The definitions that evaluate a run on a given command line and service.\<close>

lemmas main_eval =
  main_def absent_def command_line_def coffee_tree_def product_def page_def item_def
  goods_search_page_def in_stock_def append_row_def empty_page_def

section \<open>Claim about the run\<close>

text \<open>
  Claim C9. A run calls \<open>write_csv\<close> at most once. It does not call it when the city
  resolution fails, when the category lookup fails, when a page fetch fails during the
  pagination, or while the pagination has not ended. When it calls it, the path is the one
  given on the command line, both earlier steps have succeeded, and the rows are those of
  the pagination run to its end.
\<close>

theorem no_partial_output:
  "length (csv_calls (main a w)) \<le> 1 \<and>
   (resolve_city (w_city_info w) (arg_city a) (arg_fias_id a) = Inl e1 \<longrightarrow>
      csv_calls (main a w) = []) \<and>
   (get_coffee_category_id (w_categories w) = Inl e2 \<longrightarrow> csv_calls (main a w) = []) \<and>
   (w_pages w = pre @ Raises e3 # rest \<and> list_all (\<lambda>rp. \<not> empty_page rp) pre \<longrightarrow>
      csv_calls (main a w) = []) \<and>
   (exit_code (main a w) = None \<longrightarrow> csv_calls (main a w) = []) \<and>
   (csv_calls (main a w) = [(rows, out)] \<longrightarrow>
      out = arg_out a \<and>
      (\<exists>city_id city_name fias cat.
         resolve_city (w_city_info w) (arg_city a) (arg_fias_id a) = Inr (city_id, city_name, fias) \<and>
         get_coffee_category_id (w_categories w) = Inr cat \<and>
         fst (page_loop (append_row city_name) cat city_id (arg_limit a) (w_pages w) 0 (JStr []) [])
           = Some (Inr rows)))"
proof (intro conjI impI)
  show "length (csv_calls (main a w)) \<le> 1"
    by (rule main_calls_at_most_once)
next
  assume "resolve_city (w_city_info w) (arg_city a) (arg_fias_id a) = Inl e1"
  then show "csv_calls (main a w) = []" by (rule main_city_fails)
next
  assume "get_coffee_category_id (w_categories w) = Inl e2"
  then show "csv_calls (main a w) = []" by (rule main_category_fails)
next
  assume "w_pages w = pre @ Raises e3 # rest \<and> list_all (\<lambda>rp. \<not> empty_page rp) pre"
  then show "csv_calls (main a w) = []" using main_fetch_fails by blast
next
  assume "exit_code (main a w) = None"
  then show "csv_calls (main a w) = []" by (rule main_pending)
next
  assume c: "csv_calls (main a w) = [(rows, out)]"
  from main_call [OF c] show "out = arg_out a" by blast
  from main_call [OF c]
  show "\<exists>city_id city_name fias cat.
         resolve_city (w_city_info w) (arg_city a) (arg_fias_id a) = Inr (city_id, city_name, fias) \<and>
         get_coffee_category_id (w_categories w) = Inr cat \<and>
         fst (page_loop (append_row city_name) cat city_id (arg_limit a) (w_pages w) 0 (JStr []) [])
           = Some (Inr rows)"
    by blast
qed

text \<open>
  A run over three pages writes the two products in stock; a run whose second page fetch
  fails, one that still waits for its second page, one for an unknown city and one without
  the category write nothing.
\<close>

theorem no_partial_output_witness:
  "main (command_line (Some (u ''Moscow'')))
     \<lparr>w_city_info = one_city, w_categories = coffee_tree,
      w_pages = [page [product 1 (u ''Jacobs'') 500 (JInt 2), product 2 (u ''Lavazza'') 700 (JInt 0)] [],
                 page [product 3 (u ''Jardin'') 900 (JInt 1)] [],
                 page [] []]\<rparr>
     = \<lparr>exit_code = Some (Inr 0),
        csv_calls =
          [([\<lparr>product_id = u ''1'', name = u ''Jacobs'', regular_price = Some 5,
              promo_price = None, brand = u ''Jacobs'', city = u ''Moscow''\<rparr>,
             \<lparr>product_id = u ''3'', name = u ''Jardin'', regular_price = Some 9,
              promo_price = None, brand = u ''Jardin'', city = u ''Moscow''\<rparr>],
            u ''coffee.csv'')]\<rparr> \<and>
   main (command_line (Some (u ''Moscow'')))
     \<lparr>w_city_info = one_city, w_categories = coffee_tree,
      w_pages = [page [product 1 (u ''Jacobs'') 500 (JInt 2)] []] @ Raises RequestFailed # []\<rparr>
     = \<lparr>exit_code = Some (Inl RequestFailed), csv_calls = []\<rparr> \<and>
   main (command_line (Some (u ''Moscow'')))
     \<lparr>w_city_info = one_city, w_categories = coffee_tree,
      w_pages = [page [product 1 (u ''Jacobs'') 500 (JInt 2)] []]\<rparr>
     = \<lparr>exit_code = None, csv_calls = []\<rparr> \<and>
   main (command_line (Some (u ''Kazan'')))
     \<lparr>w_city_info = one_city, w_categories = coffee_tree, w_pages = [page [] []]\<rparr>
     = \<lparr>exit_code = Some (Inl (RuntimeError NoFiasId)), csv_calls = []\<rparr> \<and>
   main (command_line (Some (u ''Moscow'')))
     \<lparr>w_city_info = one_city, w_categories = Body (JDict []), w_pages = [page [] []]\<rparr>
     = \<lparr>exit_code = Some (Inl (RuntimeError NoCoffeeCategory)), csv_calls = []\<rparr>"
proof -
  let ?a = "command_line (Some (u ''Moscow''))"
  let ?ok = "\<lparr>w_city_info = one_city, w_categories = coffee_tree,
      w_pages = [page [product 1 (u ''Jacobs'') 500 (JInt 2), product 2 (u ''Lavazza'') 700 (JInt 0)] [],
                 page [product 3 (u ''Jardin'') 900 (JInt 1)] [],
                 page [] []]\<rparr>"
  let ?rows = "[\<lparr>product_id = u ''1'', name = u ''Jacobs'', regular_price = Some 5,
              promo_price = None, brand = u ''Jacobs'', city = u ''Moscow''\<rparr>,
             \<lparr>product_id = u ''3'', name = u ''Jardin'', regular_price = Some 9,
              promo_price = None, brand = u ''Jardin'', city = u ''Moscow''\<rparr>]"
  let ?fail = "\<lparr>w_city_info = one_city, w_categories = coffee_tree,
      w_pages = [page [product 1 (u ''Jacobs'') 500 (JInt 2)] []] @ Raises RequestFailed # []\<rparr>"
  let ?wait = "\<lparr>w_city_info = one_city, w_categories = coffee_tree,
      w_pages = [page [product 1 (u ''Jacobs'') 500 (JInt 2)] []]\<rparr>"
  let ?k = "command_line (Some (u ''Kazan''))"
  let ?w1 = "\<lparr>w_city_info = one_city, w_categories = coffee_tree, w_pages = [page [] []]\<rparr>"
  let ?w2 = "\<lparr>w_city_info = one_city, w_categories = Body (JDict []), w_pages = [page [] []]\<rparr>"
  have ok: "main ?a ?ok = \<lparr>exit_code = Some (Inr 0), csv_calls = [(?rows, u ''coffee.csv'')]\<rparr>"
    by (simp add: main_eval row_eval city_eval category_eval csv_eval)
  have e1: "exit_code (main ?a ?fail) = Some (Inl RequestFailed)"
    by (simp add: main_eval row_eval city_eval category_eval csv_eval)
  have h1: "w_pages ?fail = [page [product 1 (u ''Jacobs'') 500 (JInt 2)] []] @ Raises RequestFailed # [] \<and>
      list_all (\<lambda>rp. \<not> empty_page rp) [page [product 1 (u ''Jacobs'') 500 (JInt 2)] []]"
    by (simp add: main_eval py_or_def dict_get_def u_def)
  from no_partial_output [of ?a ?fail] h1 have c1: "csv_calls (main ?a ?fail) = []"
    by blast
  have e2: "exit_code (main ?a ?wait) = None"
    by (simp add: main_eval row_eval city_eval category_eval csv_eval)
  from no_partial_output [of ?a ?wait] e2 have c2: "csv_calls (main ?a ?wait) = []"
    by blast
  have e3: "exit_code (main ?k ?w1) = Some (Inl (RuntimeError NoFiasId))"
    by (simp add: main_eval row_eval city_eval category_eval csv_eval)
  have h3: "resolve_city (w_city_info ?w1) (arg_city ?k) (arg_fias_id ?k) = Inl (RuntimeError NoFiasId)"
    by (simp add: main_eval city_eval)
  from no_partial_output [of ?k ?w1] h3 have c3: "csv_calls (main ?k ?w1) = []"
    by blast
  have e4: "exit_code (main ?a ?w2) = Some (Inl (RuntimeError NoCoffeeCategory))"
    by (simp add: main_eval row_eval city_eval category_eval csv_eval)
  have h4: "get_coffee_category_id (w_categories ?w2) = Inl (RuntimeError NoCoffeeCategory)"
    by (simp add: category_eval)
  from no_partial_output [of ?a ?w2] h4 have c4: "csv_calls (main ?a ?w2) = []"
    by blast
  from ok e1 c1 e2 c2 e3 c3 e4 c4 show ?thesis by simp
qed

end
